theory Spec2Isabelle
  imports Complex_Main "HOL-Library.Word" "HOL-Library.Multiset"
begin

section \<open>JavaScript strings\<close>

text \<open>
  A JavaScript string is a sequence of UTF-16 code units. \<open>lit\<close> embeds an ASCII
  literal of the source.
\<close>

type_synonym jsstring = "16 word list"

definition lit :: "string \<Rightarrow> jsstring" where
  "lit s = map of_char s"

text \<open>
  The code units that \<^verbatim>\<open>String.prototype.trim\<close> strips and that \<^verbatim>\<open>\s\<close> matches in a
  regular expression: ECMAScript WhiteSpace and LineTerminator.
\<close>

definition is_ws :: "16 word \<Rightarrow> bool" where
  "is_ws c \<longleftrightarrow>
     c \<in> {0x9, 0xA, 0xB, 0xC, 0xD, 0x20, 0xA0, 0x1680, 0x2028, 0x2029, 0x202F, 0x205F,
          0x3000, 0xFEFF}
     \<or> (0x2000 \<le> c \<and> c \<le> 0x200A)"

definition js_trim :: "jsstring \<Rightarrow> jsstring" where
  "js_trim s = rev (dropWhile is_ws (rev (dropWhile is_ws s)))"

text \<open>\<^verbatim>\<open>xs.join("\n")\<close>\<close>

fun join_nl :: "jsstring list \<Rightarrow> jsstring" where
  "join_nl [] = []"
| "join_nl [x] = x"
| "join_nl (x # y # zs) = x @ [0xA] @ join_nl (y # zs)"

section \<open>The chat route\<close>

text \<open>
  The repository holds three versions of the chat handler \<^verbatim>\<open>POST\<close>:
  \<^verbatim>\<open>src/unnamed/part_000\<close> (soft threshold 0.20), \<^verbatim>\<open>src/unnamed/part_001\<close> (no threshold,
  demo slug) and \<^verbatim>\<open>src/unnamed/part_002\<close> (hard threshold 0.75). Each is modelled as a
  function from the external world and the request to the response and the list of
  calls made to the external collaborators, in order.
\<close>

subsection \<open>Data\<close>

text \<open>
  \<^verbatim>\<open>RagMatch\<close>: a row returned by \<^verbatim>\<open>match_embeddings\<close>. The handler tests
  \<^verbatim>\<open>typeof m.similarity === "number"\<close> and \<^verbatim>\<open>!!m.content\<close>, so a field may hold no string
  or no number: \<open>None\<close>.
\<close>

record rag_match =
  mid :: jsstring
  mcontent :: "jsstring option"
  msimilarity :: "real option"

record tenant =
  tid :: jsstring
  tname :: jsstring
  tslug :: jsstring

record tenant_settings =
  welcome_message :: jsstring
  fallback_message :: jsstring

text \<open>
  The request, as the handler reads it: the fields of the JSON body (all absent when the
  body does not parse: \<^verbatim>\<open>body = {}\<close>), the query parameters and the header. The body is
  a JSON object whose fields, where present, are strings, the type the handler casts them
  to (\<^verbatim>\<open>string | undefined\<close>); \<open>None\<close> is an absent or \<^verbatim>\<open>null\<close> field. \<open>body_null\<close> says
  that the body is the JSON value \<^verbatim>\<open>null\<close>: \<^verbatim>\<open>req.json()\<close> returns it, and reading
  \<^verbatim>\<open>body.message\<close> throws a \<^verbatim>\<open>TypeError\<close>. Any other JSON value that is not an object has
  no fields.
\<close>

record chat_request =
  body_null :: bool
  body_message :: "jsstring option"
  body_slug :: "jsstring option"
  query_message :: "jsstring option"
  query_slug :: "jsstring option"
  query_debug :: "jsstring option"
  header_slug :: "jsstring option"

text \<open>
  The generation request. The two templates (\<^verbatim>\<open>systemPrompt\<close> and the user block) are
  fixed text around four holes; the request is modelled by what fills the holes.
\<close>

record gen_request =
  g_company :: jsstring
  g_fallback :: jsstring
  g_message :: jsstring
  g_kb :: jsstring

datatype completion_result =
  GenThrows "jsstring option"
| GenContent "jsstring option"

datatype rpc_result =
  RpcError
| RpcData "rag_match list option"

text \<open>
  The external collaborators: store, embedding capability, generation capability. Each
  answers a call by its arguments. \<open>None\<close> stands for an error result or a thrown
  exception, as the comment at each use says. \<open>type_error_text\<close> is the message of the
  \<^verbatim>\<open>TypeError\<close> the platform throws when a property of \<^verbatim>\<open>null\<close> is read.
\<close>

record chat_world =
  type_error_text :: jsstring
  tenant_row :: "jsstring \<Rightarrow> tenant option"
  settings_row :: "jsstring \<Rightarrow> tenant_settings option"
  embed_query :: "jsstring \<Rightarrow> real list option"
  match_embeddings :: "real list \<Rightarrow> nat \<Rightarrow> jsstring \<Rightarrow> rpc_result"
  completion :: "gen_request \<Rightarrow> completion_result"

datatype chat_event =
  CallTenant jsstring
| CallSettings jsstring
| CallEmbed jsstring
| CallMatch "real list" nat jsstring
| CallGenerate gen_request

datatype jv =
  JStr jsstring
| JBool bool
| JNum real
| JMatches "rag_match list"
| JTenant tenant
| JSettings tenant_settings

record http_response =
  status :: nat
  body :: "(string \<times> jv) list"

definition json :: "nat \<Rightarrow> (string \<times> jv) list \<Rightarrow> http_response" where
  "json st kvs = \<lparr>status = st, body = kvs\<rparr>"

definition has_field :: "http_response \<Rightarrow> string \<Rightarrow> bool" where
  "has_field r k \<longleftrightarrow> k \<in> set (map fst (body r))"

definition field :: "http_response \<Rightarrow> string \<Rightarrow> jv option" where
  "field r k = map_of (body r) k"

subsection \<open>Helpers shared by the three versions\<close>

text \<open>\<^verbatim>\<open>a ?? b\<close>\<close>

definition nullish :: "'a option \<Rightarrow> 'a option \<Rightarrow> 'a option" where
  "nullish a b = (case a of Some x \<Rightarrow> Some x | None \<Rightarrow> b)"

text \<open>\<^verbatim>\<open>getTenantBySlug\<close>: \<open>None\<close> is \<^verbatim>\<open>throw new Error("Tenant not found")\<close>.\<close>

definition getTenantBySlug :: "chat_world \<Rightarrow> jsstring \<Rightarrow> tenant option" where
  "getTenantBySlug w slug = tenant_row w slug"

definition default_settings :: tenant_settings where
  "default_settings =
     \<lparr>welcome_message = lit ''Wie kann ich Ihnen helfen?'',
      fallback_message = lit ''Leider habe ich hierzu noch keine Informationen hinterlegt.''\<rparr>"

definition getTenantSettings :: "chat_world \<Rightarrow> jsstring \<Rightarrow> tenant_settings" where
  "getTenantSettings w tenantId =
     (case settings_row w tenantId of None \<Rightarrow> default_settings | Some d \<Rightarrow> d)"

text \<open>
  \<^verbatim>\<open>ragSearch\<close>: \<open>None\<close> when the embedding call throws or the RPC reports an error;
  \<^verbatim>\<open>data ?? []\<close> otherwise. The second component lists the calls made.
\<close>

definition ragSearch ::
  "chat_world \<Rightarrow> jsstring \<Rightarrow> jsstring \<Rightarrow> nat \<Rightarrow> rag_match list option \<times> chat_event list" where
  "ragSearch w tenantId query k =
     (case embed_query w query of
        None \<Rightarrow> (None, [CallEmbed query])
      | Some queryEmbedding \<Rightarrow>
          (case match_embeddings w queryEmbedding k tenantId of
             RpcError \<Rightarrow> (None, [CallEmbed query, CallMatch queryEmbedding k tenantId])
           | RpcData d \<Rightarrow>
               (Some (case d of None \<Rightarrow> [] | Some ms \<Rightarrow> ms),
                [CallEmbed query, CallMatch queryEmbedding k tenantId])))"

text \<open>\<^verbatim>\<open>`- ${m.content}`\<close>: a missing content prints as \<^verbatim>\<open>null\<close>.\<close>

definition kb_line :: "rag_match \<Rightarrow> jsstring" where
  "kb_line m = lit ''- '' @ (case mcontent m of Some c \<Rightarrow> c | None \<Rightarrow> lit ''null'')"

definition kb_text :: "rag_match list \<Rightarrow> jsstring" where
  "kb_text ms = join_nl (map kb_line ms)"

text \<open>The catch-all of every handler: status 500 with \<^verbatim>\<open>e?.message ?? "server error"\<close>.\<close>

definition server_error :: "jsstring option \<Rightarrow> http_response" where
  "server_error msg =
     json 500 [(''ok'', JBool False),
               (''error'', JStr (case msg of Some m \<Rightarrow> m | None \<Rightarrow> lit ''server error''))]"

text \<open>The generation call and the answer built from it, the same in all three versions
  but for the \<^verbatim>\<open>from_kb\<close> field.\<close>

definition generate ::
  "chat_world \<Rightarrow> tenant \<Rightarrow> tenant_settings \<Rightarrow> jsstring \<Rightarrow> jsstring \<Rightarrow> bool \<Rightarrow>
   http_response \<times> chat_event list" where
  "generate w tn settings message kb with_from_kb =
     (let rq = \<lparr>g_company = tname tn, g_fallback = fallback_message settings,
                g_message = message, g_kb = kb\<rparr>
      in case completion w rq of
           GenThrows msg \<Rightarrow> (server_error msg, [CallGenerate rq])
         | GenContent c \<Rightarrow>
             (json 200
                ([(''text'', JStr (case c of Some t \<Rightarrow> t | None \<Rightarrow> fallback_message settings)),
                  (''welcome_message'', JStr (welcome_message settings))]
                 @ (if with_from_kb then [(''from_kb'', JBool True)] else [])),
              [CallGenerate rq]))"

definition fallback_response :: "tenant_settings \<Rightarrow> http_response" where
  "fallback_response settings =
     json 200 [(''text'', JStr (fallback_message settings)),
               (''welcome_message'', JStr (welcome_message settings)),
               (''from_kb'', JBool False)]"

subsection \<open>\<^verbatim>\<open>src/unnamed/part_000\<close>: soft threshold\<close>

definition MIN_SIMILARITY_000 :: real where
  "MIN_SIMILARITY_000 = 0.20"

text \<open>The filter \<^verbatim>\<open>scored\<close>: a numeric similarity and a content that is not blank.\<close>

definition usable :: "rag_match \<Rightarrow> bool" where
  "usable m \<longleftrightarrow>
     msimilarity m \<noteq> None \<and>
     (case mcontent m of None \<Rightarrow> False | Some c \<Rightarrow> c \<noteq> [] \<and> length (js_trim c) > 0)"

definition scored_of :: "rag_match list \<Rightarrow> rag_match list" where
  "scored_of matches = filter usable matches"

text \<open>\<^verbatim>\<open>m.similarity >= T\<close>, evaluated by the handlers on numbers only.\<close>

definition clears :: "real \<Rightarrow> rag_match \<Rightarrow> bool" where
  "clears T m \<longleftrightarrow> (case msimilarity m of Some x \<Rightarrow> T \<le> x | None \<Rightarrow> False)"

text \<open>
  The score a comparator \<^verbatim>\<open>(a, b) => b.similarity - a.similarity\<close> reads. It is applied to
  members of \<^verbatim>\<open>scored\<close> only, whose similarity is a number.
\<close>

definition sim :: "rag_match \<Rightarrow> real" where
  "sim m = (case msimilarity m of Some x \<Rightarrow> x | None \<Rightarrow> 0)"

text \<open>
  \<^verbatim>\<open>xs.sort((a, b) => b.similarity - a.similarity)\<close>: \<^verbatim>\<open>Array.prototype.sort\<close> is stable,
  so the result is the stable sort by descending score.
\<close>

definition sort_desc :: "rag_match list \<Rightarrow> rag_match list" where
  "sort_desc ms = sort_key (\<lambda>m. - sim m) ms"

text \<open>
  The selection of \<^verbatim>\<open>top\<close>, with the module constant \<^verbatim>\<open>MIN_SIMILARITY\<close> and the cap
  \<^verbatim>\<open>4\<close> of \<^verbatim>\<open>.slice(0, 4)\<close> as parameters \<open>T\<close> and \<open>K\<close>.
\<close>

definition rank :: "real \<Rightarrow> nat \<Rightarrow> rag_match list \<Rightarrow> rag_match list" where
  "rank T K scored =
     (let above = sort_desc (filter (clears T) scored)
      in take K (sort_desc (if length above > 0 then above else scored)))"

definition POST_000 :: "chat_world \<Rightarrow> chat_request \<Rightarrow> http_response \<times> chat_event list" where
  "POST_000 w req =
     (if body_null req then (server_error (Some (type_error_text w)), [])
      else
     (let message = (case nullish (body_message req) (query_message req) of
                       Some m \<Rightarrow> m | None \<Rightarrow> []);
          slug = nullish (body_slug req) (nullish (query_slug req) (header_slug req))
      in if message = [] then (json 400 [(''error'', JStr (lit ''message required''))], [])
         else case slug of
           None \<Rightarrow> (json 400 [(''error'', JStr (lit ''slug required''))], [])
         | Some s \<Rightarrow>
             if s = [] then (json 400 [(''error'', JStr (lit ''slug required''))], [])
             else case getTenantBySlug w s of
               None \<Rightarrow> (server_error (Some (lit ''Tenant not found'')), [CallTenant s])
             | Some tn \<Rightarrow>
                 let settings = getTenantSettings w (tid tn);
                     (found, calls) = ragSearch w (tid tn) message 4;
                     matches = (case found of None \<Rightarrow> [] | Some ms \<Rightarrow> ms);
                     log = [CallTenant s, CallSettings (tid tn)] @ calls;
                     scored = scored_of matches
                 in if query_debug req = Some (lit ''1'') then
                      (json 200 [(''slug'', JStr s), (''tenant'', JTenant tn),
                                 (''settings'', JSettings settings),
                                 (''matches'', JMatches scored),
                                 (''relevantMatches'',
                                    JMatches (filter (clears MIN_SIMILARITY_000) scored)),
                                 (''threshold'', JNum MIN_SIMILARITY_000)], log)
                    else if length scored = 0 then (fallback_response settings, log)
                    else
                      let top = rank MIN_SIMILARITY_000 4 scored;
                          (resp, gen) = generate w tn settings message (kb_text top) True
                      in (resp, log @ gen)))"

subsection \<open>\<^verbatim>\<open>src/unnamed/part_001\<close>: no threshold, demo slug\<close>

definition POST_001 :: "chat_world \<Rightarrow> chat_request \<Rightarrow> http_response \<times> chat_event list" where
  "POST_001 w req =
     (if body_null req then (server_error (Some (type_error_text w)), [])
      else
     (let message = (case nullish (body_message req) (query_message req) of
                       Some m \<Rightarrow> m | None \<Rightarrow> []);
          slug = (case nullish (body_slug req) (nullish (query_slug req) (header_slug req)) of
                    Some s \<Rightarrow> s | None \<Rightarrow> lit ''kunden-muster'')
      in if message = [] then (json 400 [(''error'', JStr (lit ''message required''))], [])
         else case getTenantBySlug w slug of
           None \<Rightarrow> (server_error (Some (lit ''Tenant not found'')), [CallTenant slug])
         | Some tn \<Rightarrow>
             let settings = getTenantSettings w (tid tn);
                 (found, calls) = ragSearch w (tid tn) message 4;
                 matches = (case found of None \<Rightarrow> [] | Some ms \<Rightarrow> ms);
                 log = [CallTenant slug, CallSettings (tid tn)] @ calls;
                 kb = (if length matches > 0 then kb_text matches
                       else lit ''- Es sind noch keine Wissensinhalte hinterlegt.'');
                 (resp, gen) = generate w tn settings message kb False
             in (resp, log @ gen)))"

subsection \<open>\<^verbatim>\<open>src/unnamed/part_002\<close>: hard threshold\<close>

definition MIN_SIMILARITY_002 :: real where
  "MIN_SIMILARITY_002 = 0.75"

text \<open>\<^verbatim>\<open>relevantMatches\<close>, with \<^verbatim>\<open>MIN_SIMILARITY\<close> as the parameter \<open>T\<close>.\<close>

definition relevantMatches :: "real \<Rightarrow> rag_match list \<Rightarrow> rag_match list" where
  "relevantMatches T matches = filter (\<lambda>m. msimilarity m \<noteq> None \<and> clears T m) matches"

definition POST_002 :: "chat_world \<Rightarrow> chat_request \<Rightarrow> http_response \<times> chat_event list" where
  "POST_002 w req =
     (if body_null req then (server_error (Some (type_error_text w)), [])
      else
     (let message = (case nullish (body_message req) (query_message req) of
                       Some m \<Rightarrow> m | None \<Rightarrow> []);
          slug = nullish (body_slug req) (nullish (query_slug req) (header_slug req))
      in if message = [] then (json 400 [(''error'', JStr (lit ''message required''))], [])
         else case slug of
           None \<Rightarrow> (json 400 [(''error'', JStr (lit ''slug required''))], [])
         | Some s \<Rightarrow>
             if s = [] then (json 400 [(''error'', JStr (lit ''slug required''))], [])
             else case getTenantBySlug w s of
               None \<Rightarrow> (server_error (Some (lit ''Tenant not found'')), [CallTenant s])
             | Some tn \<Rightarrow>
                 let settings = getTenantSettings w (tid tn);
                     (found, calls) = ragSearch w (tid tn) message 4;
                     matches = (case found of None \<Rightarrow> [] | Some ms \<Rightarrow> ms);
                     log = [CallTenant s, CallSettings (tid tn)] @ calls;
                     relevant = relevantMatches MIN_SIMILARITY_002 matches
                 in if query_debug req = Some (lit ''1'') then
                      (json 200 [(''slug'', JStr s), (''tenant'', JTenant tn),
                                 (''settings'', JSettings settings),
                                 (''matches'', JMatches matches),
                                 (''relevantMatches'', JMatches relevant)], log)
                    else if length relevant = 0 then (fallback_response settings, log)
                    else
                      let (resp, gen) = generate w tn settings message (kb_text relevant) True
                      in (resp, log @ gen)))"

section \<open>Ingestion: shared data\<close>

text \<open>
  \<^verbatim>\<open>src/app/api/admin/scrape/route.ts\<close> holds two programs: the admin route \<^verbatim>\<open>POST\<close> and the
  ingest script (\<^verbatim>\<open>chunk\<close>, \<^verbatim>\<open>crawlSite\<close>, \<^verbatim>\<open>main\<close>).

  A URL object of the platform is modelled by its components. A URL string that the
  code got from \<^verbatim>\<open>toString()\<close> stands for the URL it serialises, so parsing it again
  gives the same value.
\<close>

record url =
  scheme :: jsstring
  hostname :: jsstring
  port :: jsstring
  pathname :: jsstring
  search :: jsstring
  hash :: jsstring

text \<open>
  What the two programs read from a fetched page: the result of \<^verbatim>\<open>extractText(html)\<close> and
  the captures of \<^verbatim>\<open>linkRegex\<close> in document order (admin route); the \<^verbatim>\<open>href\<close> attribute
  of each \<^verbatim>\<open>a\<close> element, the text content of the Readability article and of the body
  (ingest script).
\<close>

record page =
  extracted_text :: jsstring
  anchor_hrefs :: "jsstring list"
  dom_hrefs :: "jsstring option list"
  article_text :: "jsstring option"
  body_text :: "jsstring option"

text \<open>
  \<^verbatim>\<open>fetch(u)\<close> followed by \<^verbatim>\<open>res.text()\<close>: the promise of \<^verbatim>\<open>fetch\<close> rejects, the status is
  not OK, reading the body fails, or the page arrives.
\<close>

datatype fetch_result =
  FetchRejects
| FetchNotOk
| FetchBodyFails "jsstring option"
| FetchOk page

record ki_row =
  ki_tenant_id :: jsstring
  ki_title :: "jsstring option"
  ki_url :: "url option"
  ki_source :: "url option"
  ki_content :: jsstring

record emb_row =
  emb_tenant_id :: jsstring
  emb_content :: jsstring
  emb_vector :: "real list"

record store =
  knowledge_items :: "ki_row list"
  embeddings :: "emb_row list"

datatype store_op =
  OpTenantLookup jsstring
| OpDeleteEmbeddings jsstring
| OpDeleteKnowledge jsstring
| OpInsertKnowledge ki_row
| OpInsertEmbedding emb_row

text \<open>
  The world outside the two programs: the environment, the tenants table, the URL
  parser of the platform, the site, whether the store accepts a write, and the embedding
  capability (\<open>None\<close>: the call throws). \<open>refetch_page\<close> answers the second fetch of a
  page, by \<^verbatim>\<open>extractTextFromUrl\<close>. \<open>url_origin\<close> is the getter \<^verbatim>\<open>url.origin\<close> of the platform,
  whatever the scheme of the URL (for a \<^verbatim>\<open>blob:\<close> URL it is the origin of the URL inside).
  \<open>null_body_error\<close> is the message of the \<^verbatim>\<open>TypeError\<close> thrown when a property of \<^verbatim>\<open>null\<close>
  is read.
\<close>

record world =
  admin_password :: "jsstring option"
  null_body_error :: jsstring
  tenant_lookup :: "jsstring \<Rightarrow> tenant option"
  parse_url :: "jsstring \<Rightarrow> url option"
  resolve_url :: "jsstring \<Rightarrow> url \<Rightarrow> url option"
  url_origin :: "url \<Rightarrow> jsstring"
  fetch_page :: "url \<Rightarrow> fetch_result"
  refetch_page :: "url \<Rightarrow> fetch_result"
  store_accepts :: "store_op \<Rightarrow> bool"
  embedding :: "jsstring \<Rightarrow> real list option"

definition starts_with :: "jsstring \<Rightarrow> jsstring \<Rightarrow> bool" where
  "starts_with p s \<longleftrightarrow> take (length p) s = p"

definition ends_with :: "jsstring \<Rightarrow> jsstring \<Rightarrow> bool" where
  "ends_with p s \<longleftrightarrow> length p \<le> length s \<and> drop (length s - length p) s = p"

text \<open>\<^verbatim>\<open>Array.from(new Set(xs))\<close>: the first occurrence of each element, in order.\<close>

definition dedup :: "'a list \<Rightarrow> 'a list" where
  "dedup xs = rev (remdups (rev xs))"

text \<open>The store operations; a refused write leaves the store as it is.\<close>

definition delete_embeddings :: "world \<Rightarrow> jsstring \<Rightarrow> store \<Rightarrow> store" where
  "delete_embeddings w t s =
     (if store_accepts w (OpDeleteEmbeddings t)
      then s\<lparr>embeddings := filter (\<lambda>e. emb_tenant_id e \<noteq> t) (embeddings s)\<rparr> else s)"

definition delete_knowledge :: "world \<Rightarrow> jsstring \<Rightarrow> store \<Rightarrow> store" where
  "delete_knowledge w t s =
     (if store_accepts w (OpDeleteKnowledge t)
      then s\<lparr>knowledge_items := filter (\<lambda>k. ki_tenant_id k \<noteq> t) (knowledge_items s)\<rparr> else s)"

definition insert_knowledge :: "world \<Rightarrow> ki_row \<Rightarrow> store \<Rightarrow> store" where
  "insert_knowledge w row s =
     (if store_accepts w (OpInsertKnowledge row)
      then s\<lparr>knowledge_items := knowledge_items s @ [row]\<rparr> else s)"

definition insert_embedding :: "world \<Rightarrow> emb_row \<Rightarrow> store \<Rightarrow> store" where
  "insert_embedding w row s =
     (if store_accepts w (OpInsertEmbedding row)
      then s\<lparr>embeddings := embeddings s @ [row]\<rparr> else s)"

section \<open>The admin route\<close>

text \<open>
  The fields of the JSON body of the request (all absent when the body does not parse),
  each a string where present. \<open>rq_null\<close> says that the body is the JSON value \<^verbatim>\<open>null\<close>:
  it parses, so the \<^verbatim>\<open>catch\<close> of \<^verbatim>\<open>req.json()\<close> does not replace it, and reading
  \<^verbatim>\<open>body.password\<close> throws a \<^verbatim>\<open>TypeError\<close>.
\<close>

record admin_request =
  rq_null :: bool
  rq_password :: "jsstring option"
  rq_slug :: "jsstring option"
  rq_url :: "jsstring option"

datatype admin_response =
  Unauthorized
| BadRequest
| ServerError "jsstring option"
| Ingested tenant nat "(url \<times> jsstring) list"

definition admin_status :: "admin_response \<Rightarrow> nat" where
  "admin_status r =
     (case r of Unauthorized \<Rightarrow> 401 | BadRequest \<Rightarrow> 400 | ServerError _ \<Rightarrow> 500
      | Ingested _ _ _ \<Rightarrow> 200)"

text \<open>\<^verbatim>\<open>normalizeUrl\<close> of the route: \<open>None\<close> when the second \<^verbatim>\<open>new URL\<close> throws too.\<close>

definition normalizeUrl :: "world \<Rightarrow> jsstring \<Rightarrow> url option" where
  "normalizeUrl w input =
     (case parse_url w input of
        Some u \<Rightarrow> Some u
      | None \<Rightarrow> parse_url w (lit ''https://'' @ input))"

definition extractLinks :: "world \<Rightarrow> jsstring list \<Rightarrow> url \<Rightarrow> url list" where
  "extractLinks w hrefs baseUrl =
     dedup (List.map_filter
       (\<lambda>href.
          if href = [] then None
          else if starts_with (lit ''#'') href then None
          else if starts_with (lit ''mailto:'') href \<or> starts_with (lit ''tel:'') href then None
          else case resolve_url w href baseUrl of
                 None \<Rightarrow> None
               | Some u \<Rightarrow> if url_origin w u \<noteq> url_origin w baseUrl then None else Some u)
       hrefs)"

definition maxPages_admin :: nat where
  "maxPages_admin = 8"

text \<open>
  The state of the crawl loop. \<open>visited\<close> is the \<^verbatim>\<open>Set\<close> in insertion order, \<open>fetched\<close>
  lists the calls of \<^verbatim>\<open>fetch\<close>, \<open>ops\<close> the calls to the store, and \<open>thrown\<close> holds an
  exception that left the loop.
\<close>

record crawl_state =
  visited :: "url list"
  queue :: "url list"
  createdItems :: "(url \<times> jsstring) list"
  cstore :: store
  ops :: "store_op list"
  fetched :: "url list"
  thrown :: "jsstring option option"

text \<open>The title: \<^verbatim>\<open>pathname.replace(/\/+$/, "") || "/"\<close>, or \<^verbatim>\<open>Website\<close> for the seed.\<close>

definition page_title :: "url \<Rightarrow> url \<Rightarrow> jsstring" where
  "page_title base current =
     (if current \<noteq> base
      then (let path = rev (dropWhile (\<lambda>c. c = 0x2F) (rev (pathname current)))
            in if path = [] then lit ''/'' else path)
      else lit ''Website'')"

definition knowledge_row :: "tenant \<Rightarrow> url \<Rightarrow> url \<Rightarrow> jsstring \<Rightarrow> ki_row" where
  "knowledge_row tn base current text =
     \<lparr>ki_tenant_id = tid tn, ki_title = Some (page_title base current),
      ki_url = Some current, ki_source = None, ki_content = take 12000 text\<rparr>"

text \<open>The \<^verbatim>\<open>try\<close> block that creates and stores the embedding; every failure is logged
  and swallowed.\<close>

definition embed_page :: "world \<Rightarrow> tenant \<Rightarrow> jsstring \<Rightarrow> crawl_state \<Rightarrow> crawl_state" where
  "embed_page w tn text st =
     (case embedding w (take 8000 text) of
        None \<Rightarrow> st
      | Some v \<Rightarrow>
          let row = \<lparr>emb_tenant_id = tid tn, emb_content = take 8000 text, emb_vector = v\<rparr>
          in st\<lparr>cstore := insert_embedding w row (cstore st),
                ops := ops st @ [OpInsertEmbedding row]\<rparr>)"

text \<open>One pass through the body of the \<^verbatim>\<open>while\<close> loop.\<close>

definition admin_step :: "world \<Rightarrow> tenant \<Rightarrow> url \<Rightarrow> crawl_state \<Rightarrow> crawl_state" where
  "admin_step w tn base st =
     (case queue st of
        [] \<Rightarrow> st
      | current # rest \<Rightarrow>
          let st1 = st\<lparr>queue := rest\<rparr>
          in if current \<in> set (visited st1) then st1
             else
               let st2 = st1\<lparr>visited := visited st1 @ [current],
                              fetched := fetched st1 @ [current]\<rparr>
               in case fetch_page w current of
                    FetchRejects \<Rightarrow> st2
                  | FetchNotOk \<Rightarrow> st2
                  | FetchBodyFails e \<Rightarrow> st2\<lparr>thrown := Some e\<rparr>
                  | FetchOk pg \<Rightarrow>
                      let text = extracted_text pg
                      in if text = [] \<or> length text < 200 then st2
                         else
                           let row = knowledge_row tn base current text;
                               st3 = st2\<lparr>cstore := insert_knowledge w row (cstore st2),
                                          ops := ops st2 @ [OpInsertKnowledge row]\<rparr>
                           in if \<not> store_accepts w (OpInsertKnowledge row) then st3
                              else
                                let st4 = embed_page w tn text st3;
                                    st5 = st4\<lparr>createdItems :=
                                            createdItems st4 @ [(current, page_title base current)]\<rparr>
                                in if current = base
                                   then st5\<lparr>queue := queue st5 @
                                          filter (\<lambda>l. l \<notin> set (visited st5))
                                            (take 10 (extractLinks w (anchor_hrefs pg) base))\<rparr>
                                   else st5)"

function admin_loop :: "world \<Rightarrow> tenant \<Rightarrow> url \<Rightarrow> crawl_state \<Rightarrow> crawl_state" where
  "admin_loop w tn base st =
     (if thrown st = None \<and> queue st \<noteq> [] \<and> length (visited st) < maxPages_admin
      then admin_loop w tn base (admin_step w tn base st)
      else st)"
  by pat_completeness auto

lemma embed_page_fields [simp]:
  "visited (embed_page w tn text st) = visited st"
  "queue (embed_page w tn text st) = queue st"
  by (simp_all add: embed_page_def Let_def split: option.splits)

lemma filter_take_10: "length (filter P (take 10 xs)) < 12"
proof -
  have "length (filter P (take 10 xs)) \<le> length (take 10 xs)"
    by (rule length_filter_le)
  then show ?thesis by simp
qed

text \<open>
  Links are appended only while the seed is unvisited, at most ten of them, and every
  pass removes the head of the queue: the loop ends.
\<close>

lemma admin_step_measure:
  assumes "queue st \<noteq> []"
  shows "(if base \<in> set (visited (admin_step w tn base st)) then 0 else 11)
           + length (queue (admin_step w tn base st))
         < (if base \<in> set (visited st) then 0 else (11::nat)) + length (queue st)"
proof -
  obtain current rest where q: "queue st = current # rest"
    using assms by (cases "queue st") auto
  show ?thesis
    using q
    by (auto simp add: admin_step_def Let_def filter_take_10 split: fetch_result.splits)
qed

termination admin_loop
  by (relation "measure (\<lambda>(w, tn, base, st).
        (if base \<in> set (visited st) then 0 else 11) + length (queue st))")
     (auto simp add: admin_step_measure)

declare admin_loop.simps [simp del]

definition unauthorized :: "world \<Rightarrow> admin_request \<Rightarrow> bool" where
  "unauthorized w rq \<longleftrightarrow>
     (case rq_password rq of
        None \<Rightarrow> True
      | Some password \<Rightarrow> password = [] \<or> Some password \<noteq> admin_password w)"

definition initial_crawl :: "url \<Rightarrow> store \<Rightarrow> store_op list \<Rightarrow> crawl_state" where
  "initial_crawl base s os =
     \<lparr>visited = [], queue = [base], createdItems = [], cstore = s, ops = os,
      fetched = [], thrown = None\<rparr>"

text \<open>
  What a run of the handler leaves behind: the response, the store, the calls made to the
  store and the URLs passed to \<^verbatim>\<open>fetch\<close>, both in order.
\<close>

record admin_outcome =
  response :: admin_response
  store_after :: store
  store_ops :: "store_op list"
  fetches :: "url list"

definition outcome :: "admin_response \<Rightarrow> store \<Rightarrow> store_op list \<Rightarrow> admin_outcome" where
  "outcome r s os = \<lparr>response = r, store_after = s, store_ops = os, fetches = []\<rparr>"

text \<open>The handler from the deletion of the old rows on, for the tenant and the seed found.\<close>

definition admin_ingest :: "world \<Rightarrow> tenant \<Rightarrow> url \<Rightarrow> jsstring \<Rightarrow> store \<Rightarrow> admin_outcome" where
  "admin_ingest w tn base slug s =
     (let s1 = delete_embeddings w (tid tn) s;
          s2 = delete_knowledge w (tid tn) s1;
          st = admin_loop w tn base
                 (initial_crawl base s2
                    [OpTenantLookup slug, OpDeleteEmbeddings (tid tn),
                     OpDeleteKnowledge (tid tn)])
      in \<lparr>response =
            (case thrown st of
               Some e \<Rightarrow> ServerError e
             | None \<Rightarrow> Ingested tn (length (createdItems st)) (createdItems st)),
          store_after = cstore st, store_ops = ops st, fetches = fetched st\<rparr>)"

definition POST_admin :: "world \<Rightarrow> admin_request \<Rightarrow> store \<Rightarrow> admin_outcome" where
  "POST_admin w rq s =
     (if rq_null rq then outcome (ServerError (Some (null_body_error w))) s []
      else if unauthorized w rq then outcome Unauthorized s []
      else case (rq_slug rq, rq_url rq) of
        (Some slug, Some targetUrl) \<Rightarrow>
          if slug = [] \<or> targetUrl = [] then outcome BadRequest s []
          else (case tenant_lookup w slug of
            None \<Rightarrow> outcome (ServerError (Some (lit ''Tenant not found''))) s [OpTenantLookup slug]
          | Some tn \<Rightarrow>
              (case normalizeUrl w targetUrl of
                 None \<Rightarrow> outcome (ServerError (Some (lit ''Invalid URL''))) s [OpTenantLookup slug]
               | Some base \<Rightarrow> admin_ingest w tn base slug s))
      | _ \<Rightarrow> outcome BadRequest s [])"

section \<open>The ingest script\<close>

subsection \<open>\<^verbatim>\<open>chunk\<close>\<close>

text \<open>\<^verbatim>\<open>s.slice(a, b)\<close>, with the negative indices of JavaScript.\<close>

definition js_slice :: "jsstring \<Rightarrow> int \<Rightarrow> int \<Rightarrow> jsstring" where
  "js_slice s a b =
     (let n = int (length s);
          lo = (if a < 0 then max (n + a) 0 else min a n);
          hi = (if b < 0 then max (n + b) 0 else min b n)
      in take (nat (hi - lo)) (drop (nat lo) s))"

text \<open>\<^verbatim>\<open>s.replace(/\s+/g, " ")\<close>: every maximal run of white space becomes one space.\<close>

function collapse_ws :: "jsstring \<Rightarrow> jsstring" where
  "collapse_ws [] = []"
| "collapse_ws (c # cs) =
     (if is_ws c then 0x20 # collapse_ws (dropWhile is_ws cs) else c # collapse_ws cs)"
  by pat_completeness auto
termination
  by (relation "measure length") (auto simp add: length_dropWhile_le less_Suc_eq_le)

text \<open>
  The \<^verbatim>\<open>while\<close> loop of \<^verbatim>\<open>chunk\<close>. With \<open>wsize \<le> overlap\<close> the index never passes the
  end of a non-empty text and the loop does not return: \<open>None\<close>.
\<close>

partial_function (option) chunk_loop ::
  "jsstring \<Rightarrow> int \<Rightarrow> int \<Rightarrow> int \<Rightarrow> jsstring list \<Rightarrow> jsstring list option" where
  "chunk_loop text wsize overlap i out =
     (if i < int (length text)
      then chunk_loop text wsize overlap (i + (wsize - overlap))
             (out @ [js_slice text i (i + wsize)])
      else Some out)"

definition chunk :: "jsstring \<Rightarrow> int \<Rightarrow> int \<Rightarrow> jsstring list option" where
  "chunk text wsize overlap =
     map_option (\<lambda>out. filter (\<lambda>s. s \<noteq> []) (map (\<lambda>s. js_trim (collapse_ws s)) out))
       (chunk_loop text wsize overlap 0 [])"

subsection \<open>\<^verbatim>\<open>crawlSite\<close>\<close>

text \<open>\<^verbatim>\<open>normalizeUrl\<close> of the script, on a URL that parses: the fragment is removed.\<close>

definition normalizeUrl_script :: "url \<Rightarrow> url" where
  "normalizeUrl_script u = u\<lparr>hash := []\<rparr>"

definition isSameHost :: "url \<Rightarrow> url \<Rightarrow> bool" where
  "isSameHost base candidate \<longleftrightarrow> hostname base = hostname candidate"

text \<open>The flag \<^verbatim>\<open>i\<close> of a regular expression, on the ASCII letters of the pattern.\<close>

definition ascii_lower :: "16 word \<Rightarrow> 16 word" where
  "ascii_lower c = (if 0x41 \<le> c \<and> c \<le> 0x5A then c + 0x20 else c)"

definition isCrawlableLink :: "jsstring option \<Rightarrow> bool" where
  "isCrawlableLink h =
     (case h of
        None \<Rightarrow> False
      | Some href \<Rightarrow>
          if href = [] then False
          else if starts_with (lit ''mailto:'') href then False
          else if starts_with (lit ''tel:'') href then False
          else if starts_with (lit ''javascript:'') href then False
          else if ends_with (lit ''.pdf'') href then False
          else if \<exists>ext\<in>set [lit ''.jpg'', lit ''.jpeg'', lit ''.png'', lit ''.webp'', lit ''.gif''].
                    ends_with ext (map ascii_lower href) then False
          else True)"

record script_state =
  s_visited :: "url list"
  toVisit :: "url list"
  s_fetched :: "url list"

definition foundLinks :: "world \<Rightarrow> url \<Rightarrow> url \<Rightarrow> jsstring option list \<Rightarrow> url list" where
  "foundLinks w start normalized hrefs =
     filter (isSameHost start)
       (map normalizeUrl_script
          (List.map_filter (\<lambda>h. case h of None \<Rightarrow> None | Some href \<Rightarrow> resolve_url w href normalized)
             (filter isCrawlableLink hrefs)))"

definition enqueue :: "nat \<Rightarrow> script_state \<Rightarrow> url \<Rightarrow> script_state" where
  "enqueue maxPages st link =
     (if link \<notin> set (s_visited st) \<and> link \<notin> set (toVisit st)
      then (if length (s_visited st) + length (toVisit st) < maxPages
            then st\<lparr>toVisit := toVisit st @ [link]\<rparr> else st)
      else st)"

definition crawl_step :: "world \<Rightarrow> url \<Rightarrow> nat \<Rightarrow> script_state \<Rightarrow> script_state" where
  "crawl_step w start maxPages st =
     (case toVisit st of
        [] \<Rightarrow> st
      | current # rest \<Rightarrow>
          let st1 = st\<lparr>toVisit := rest\<rparr>;
              normalized = normalizeUrl_script current
          in if normalized \<in> set (s_visited st1) then st1
             else
               let st2 = st1\<lparr>s_visited := s_visited st1 @ [normalized],
                              s_fetched := s_fetched st1 @ [normalized]\<rparr>
               in case fetch_page w normalized of
                    FetchOk pg \<Rightarrow>
                      foldl (enqueue maxPages) st2 (foundLinks w start normalized (dom_hrefs pg))
                  | _ \<Rightarrow> st2)"

function crawl_loop :: "world \<Rightarrow> url \<Rightarrow> nat \<Rightarrow> script_state \<Rightarrow> script_state" where
  "crawl_loop w start maxPages st =
     (if toVisit st \<noteq> [] \<and> length (s_visited st) < maxPages
      then crawl_loop w start maxPages (crawl_step w start maxPages st)
      else st)"
  by pat_completeness auto

lemma foldl_enqueue_visited [simp]:
  "s_visited (foldl (enqueue n) st ls) = s_visited st"
  by (induction ls arbitrary: st) (simp_all add: enqueue_def)

text \<open>
  A pass either adds a URL to \<open>visited\<close>, which the loop bounds by \<open>maxPages\<close>, or only
  removes the head of \<open>toVisit\<close>: the loop ends.
\<close>

lemma crawl_step_measure:
  assumes "toVisit st \<noteq> []" and "length (s_visited st) < maxPages"
  shows "maxPages - length (s_visited (crawl_step w start maxPages st))
           < maxPages - length (s_visited st) \<or>
         maxPages - length (s_visited (crawl_step w start maxPages st))
           = maxPages - length (s_visited st) \<and>
         length (toVisit (crawl_step w start maxPages st)) < length (toVisit st)"
proof -
  obtain current rest where q: "toVisit st = current # rest"
    using assms(1) by (cases "toVisit st") auto
  show ?thesis
    using q assms(2)
    by (auto simp add: crawl_step_def Let_def split: fetch_result.splits)
qed

termination crawl_loop
  by (relation "measures [\<lambda>(w, start, maxPages, st). maxPages - length (s_visited st),
                           \<lambda>(w, start, maxPages, st). length (toVisit st)]")
     (use crawl_step_measure in auto)

declare crawl_loop.simps [simp del]

text \<open>
  \<^verbatim>\<open>crawlSite\<close>: \<open>None\<close> when \<^verbatim>\<open>new URL(startUrl)\<close> throws. The array it returns is
  \<open>s_visited\<close> of the final state.
\<close>

definition crawlSite :: "world \<Rightarrow> jsstring \<Rightarrow> nat \<Rightarrow> script_state option" where
  "crawlSite w startUrl maxPages =
     (case parse_url w startUrl of
        None \<Rightarrow> None
      | Some start \<Rightarrow>
          Some (crawl_loop w start maxPages
                  \<lparr>s_visited = [], toVisit = [start], s_fetched = []\<rparr>))"

subsection \<open>\<^verbatim>\<open>main\<close>\<close>

text \<open>\<^verbatim>\<open>extractTextFromUrl\<close>: \<open>None\<close> when \<^verbatim>\<open>fetch\<close> or \<^verbatim>\<open>res.text()\<close> throws.\<close>

definition extractTextFromUrl :: "world \<Rightarrow> url \<Rightarrow> jsstring option" where
  "extractTextFromUrl w u =
     (case refetch_page w u of
        FetchRejects \<Rightarrow> None
      | FetchNotOk \<Rightarrow> Some []
      | FetchBodyFails e \<Rightarrow> None
      | FetchOk pg \<Rightarrow>
          Some (let a = (case article_text pg of Some t \<Rightarrow> js_trim t | None \<Rightarrow> [])
                in if a \<noteq> [] then a
                   else (case body_text pg of
                           Some t \<Rightarrow> js_trim (collapse_ws t)
                         | None \<Rightarrow> [])))"

text \<open>The state of \<^verbatim>\<open>main\<close>; \<open>i_failed\<close> is set by a \<^verbatim>\<open>throw\<close>, which ends the run.\<close>

record ingest_state =
  i_store :: store
  i_ops :: "store_op list"
  i_failed :: bool

text \<open>The body of \<^verbatim>\<open>for (const c of chunks)\<close>.\<close>

definition store_chunk :: "world \<Rightarrow> tenant \<Rightarrow> url \<Rightarrow> jsstring \<Rightarrow> ingest_state \<Rightarrow> ingest_state" where
  "store_chunk w tn u c st =
     (let row = \<lparr>ki_tenant_id = tid tn, ki_title = None, ki_url = None, ki_source = Some u,
                 ki_content = c\<rparr>;
          st1 = st\<lparr>i_store := insert_knowledge w row (i_store st),
                    i_ops := i_ops st @ [OpInsertKnowledge row]\<rparr>
      in if \<not> store_accepts w (OpInsertKnowledge row) then st1\<lparr>i_failed := True\<rparr>
         else case embedding w c of
           None \<Rightarrow> st1\<lparr>i_failed := True\<rparr>
         | Some vec \<Rightarrow>
             let erow = \<lparr>emb_tenant_id = tid tn, emb_content = c, emb_vector = vec\<rparr>;
                 st2 = st1\<lparr>i_store := insert_embedding w erow (i_store st1),
                           i_ops := i_ops st1 @ [OpInsertEmbedding erow]\<rparr>
             in if \<not> store_accepts w (OpInsertEmbedding erow) then st2\<lparr>i_failed := True\<rparr>
                else st2)"

fun store_chunks ::
  "world \<Rightarrow> tenant \<Rightarrow> url \<Rightarrow> jsstring list \<Rightarrow> ingest_state \<Rightarrow> ingest_state" where
  "store_chunks w tn u [] st = st"
| "store_chunks w tn u (c # cs) st =
     (let st' = store_chunk w tn u c st
      in if i_failed st' then st' else store_chunks w tn u cs st')"

text \<open>The body of \<^verbatim>\<open>for (const url of urls)\<close>; \<open>None\<close> when \<^verbatim>\<open>chunk\<close> does not return.\<close>

definition ingest_page :: "world \<Rightarrow> tenant \<Rightarrow> url \<Rightarrow> ingest_state \<Rightarrow> ingest_state option" where
  "ingest_page w tn u st =
     (case extractTextFromUrl w u of
        None \<Rightarrow> Some (st\<lparr>i_failed := True\<rparr>)
      | Some raw \<Rightarrow>
          if raw = [] \<or> length raw < 20 then Some st
          else case chunk raw 800 150 of
                 None \<Rightarrow> None
               | Some chunks \<Rightarrow> Some (store_chunks w tn u chunks st))"

fun ingest_pages ::
  "world \<Rightarrow> tenant \<Rightarrow> url list \<Rightarrow> ingest_state \<Rightarrow> ingest_state option" where
  "ingest_pages w tn [] st = Some st"
| "ingest_pages w tn (u # us) st =
     (case ingest_page w tn u st of
        None \<Rightarrow> None
      | Some st' \<Rightarrow> if i_failed st' then Some st' else ingest_pages w tn us st')"

datatype exit_status = Returned | Exited1

text \<open>
  \<^verbatim>\<open>main\<close> with its \<^verbatim>\<open>catch\<close>: how the process ends, the store and the calls made to
  it. The arguments are \<^verbatim>\<open>process.argv[2]\<close> and \<^verbatim>\<open>process.argv[3]\<close>.
\<close>

definition main ::
  "world \<Rightarrow> jsstring option \<Rightarrow> jsstring option \<Rightarrow> store \<Rightarrow>
   (exit_status \<times> store \<times> store_op list) option" where
  "main w slug startUrl s =
     (case (slug, startUrl) of
        (Some sl, Some su) \<Rightarrow>
          if sl = [] \<or> su = [] then Some (Exited1, s, [])
          else (case tenant_lookup w sl of
            None \<Rightarrow> Some (Exited1, s, [OpTenantLookup sl])
          | Some tn \<Rightarrow>
              (case crawlSite w su 15 of
                 None \<Rightarrow> Some (Exited1, s, [OpTenantLookup sl])
               | Some cs \<Rightarrow>
                   if length (s_visited cs) = 0 then Some (Returned, s, [OpTenantLookup sl])
                   else (case ingest_pages w tn (s_visited cs)
                                \<lparr>i_store = s, i_ops = [OpTenantLookup sl], i_failed = False\<rparr> of
                           None \<Rightarrow> None
                         | Some st \<Rightarrow>
                             Some (if i_failed st then Exited1 else Returned,
                                   i_store st, i_ops st))))
      | _ \<Rightarrow> Some (Exited1, s, []))"

section \<open>Concrete inputs and the notions the properties are stated with\<close>

subsection \<open>Concrete worlds and requests of the chat route\<close>

definition demo_tenant :: tenant where
  "demo_tenant = \<lparr>tid = lit ''t1'', tname = lit ''Demo'', tslug = lit ''kunden-muster''\<rparr>"

text \<open>A store that knows one tenant and no settings; the embedding call fails.\<close>

definition demo_world :: chat_world where
  "demo_world =
     \<lparr>type_error_text = lit ''Cannot read properties of null'',
      tenant_row = (\<lambda>s. if s = lit ''kunden-muster'' then Some demo_tenant else None),
      settings_row = (\<lambda>_. None),
      embed_query = (\<lambda>_. None),
      match_embeddings = (\<lambda>_ _ _. RpcError),
      completion = (\<lambda>_. GenContent (Some (lit ''ok'')))\<rparr>"

definition req_empty :: chat_request where
  "req_empty = \<lparr>body_null = False, body_message = None, body_slug = None, query_message = None,
                query_slug = None, query_debug = None, header_slug = None\<rparr>"

definition req_hi :: chat_request where
  "req_hi = req_empty\<lparr>body_message := Some (lit ''hi'')\<rparr>"

text \<open>The request whose body is the JSON value \<^verbatim>\<open>null\<close>, with a message in the query string.\<close>

definition req_null :: chat_request where
  "req_null = req_empty\<lparr>body_null := True, query_message := Some (lit ''hi''),
                         query_slug := Some (lit ''kunden-muster'')\<rparr>"

definition req_demo :: chat_request where
  "req_demo = req_hi\<lparr>body_slug := Some (lit ''kunden-muster'')\<rparr>"

definition req_debug :: chat_request where
  "req_debug = req_demo\<lparr>query_debug := Some (lit ''1'')\<rparr>"

definition mk_match :: "real \<Rightarrow> rag_match" where
  "mk_match s = \<lparr>mid = lit ''m'', mcontent = Some (lit ''x''), msimilarity = Some s\<rparr>"

text \<open>A store whose vector search returns the given matches.\<close>

definition kb_world :: "rag_match list \<Rightarrow> chat_world" where
  "kb_world ms = demo_world\<lparr>embed_query := (\<lambda>_. Some []),
                            match_embeddings := (\<lambda>_ _ _. RpcData (Some ms))\<rparr>"

subsection \<open>Notions the properties are stated with\<close>

text \<open>
  The policy of the retrieval ranker in the words of the specification: the matches
  that clear the threshold if there is one, all of them otherwise; sorted by descending
  score, capped to \<open>K\<close>.
\<close>

definition candidates :: "real \<Rightarrow> rag_match list \<Rightarrow> rag_match list" where
  "candidates T scored =
     (if \<exists>m\<in>set scored. clears T m then filter (clears T) scored else scored)"

definition spec_rank :: "real \<Rightarrow> nat \<Rightarrow> rag_match list \<Rightarrow> rag_match list" where
  "spec_rank T K scored = take K (sort_desc (candidates T scored))"

definition is_generate :: "chat_event \<Rightarrow> bool" where
  "is_generate e = (case e of CallGenerate _ \<Rightarrow> True | _ \<Rightarrow> False)"

definition three_fields :: "http_response \<Rightarrow> bool" where
  "three_fields r \<longleftrightarrow>
     (status r = 200 \<longrightarrow> map fst (body r) = [''text'', ''welcome_message'', ''from_kb''])"

subsection \<open>Notions the properties of the admin route are stated with\<close>

text \<open>The extracted text of the page at a URL; empty when no page arrives.\<close>

definition page_text :: "world \<Rightarrow> url \<Rightarrow> jsstring" where
  "page_text w u = (case fetch_page w u of FetchOk pg \<Rightarrow> extracted_text pg | _ \<Rightarrow> [])"

text \<open>
  A page counts when it arrives with status OK, its extracted text has at least 200
  code units and the store accepts its knowledge item.
\<close>

definition counted :: "world \<Rightarrow> tenant \<Rightarrow> url \<Rightarrow> url \<Rightarrow> bool" where
  "counted w tn base u \<longleftrightarrow>
     (case fetch_page w u of
        FetchOk pg \<Rightarrow>
          200 \<le> length (extracted_text pg) \<and>
          store_accepts w (OpInsertKnowledge (knowledge_row tn base u (extracted_text pg)))
      | _ \<Rightarrow> False)"

definition embedding_row :: "world \<Rightarrow> tenant \<Rightarrow> url \<Rightarrow> emb_row" where
  "embedding_row w tn u =
     \<lparr>emb_tenant_id = tid tn, emb_content = take 8000 (page_text w u),
      emb_vector = (case embedding w (take 8000 (page_text w u)) of Some v \<Rightarrow> v | None \<Rightarrow> [])\<rparr>"

text \<open>The embedding of a page is stored when the embedding call returns and the store
  accepts the row.\<close>

definition embedded :: "world \<Rightarrow> tenant \<Rightarrow> url \<Rightarrow> bool" where
  "embedded w tn u \<longleftrightarrow>
     embedding w (take 8000 (page_text w u)) \<noteq> None \<and>
     store_accepts w (OpInsertEmbedding (embedding_row w tn u))"

text \<open>The links queued from the seed page: none unless the seed page counts.\<close>

definition seed_links :: "world \<Rightarrow> tenant \<Rightarrow> url \<Rightarrow> url list" where
  "seed_links w tn base =
     (case fetch_page w base of
        FetchOk pg \<Rightarrow>
          if counted w tn base base
          then filter (\<lambda>l. l \<noteq> base) (take 10 (extractLinks w (anchor_hrefs pg) base))
          else []
      | _ \<Rightarrow> [])"

text \<open>
  The links of the seed page that the loop queues behind the seed when the seed page
  counts: of its first ten distinct same-origin links, those that are not the seed.
\<close>

definition page_links :: "world \<Rightarrow> url \<Rightarrow> url list" where
  "page_links w base =
     (case fetch_page w base of
        FetchOk pg \<Rightarrow> filter (\<lambda>l. l \<noteq> base) (take 10 (extractLinks w (anchor_hrefs pg) base))
      | _ \<Rightarrow> [])"

definition body_fails :: "world \<Rightarrow> url \<Rightarrow> bool" where
  "body_fails w u = (case fetch_page w u of FetchBodyFails _ \<Rightarrow> True | _ \<Rightarrow> False)"

definition crawl_shape :: "world \<Rightarrow> tenant \<Rightarrow> url \<Rightarrow> crawl_state \<Rightarrow> bool" where
  "crawl_shape w tn base st \<longleftrightarrow>
     fetched st = visited st \<and> distinct (visited st @ queue st) \<and>
     length (visited st) \<le> maxPages_admin \<and>
     (visited st = [] \<and> queue st = [base] \<or>
      visited st \<noteq> [] \<and> visited st @ queue st = base # seed_links w tn base)"

definition crawl_rows :: "world \<Rightarrow> tenant \<Rightarrow> url \<Rightarrow> store \<Rightarrow> crawl_state \<Rightarrow> bool" where
  "crawl_rows w tn base s0 st \<longleftrightarrow>
     createdItems st = map (\<lambda>u. (u, page_title base u)) (filter (counted w tn base) (visited st)) \<and>
     knowledge_items (cstore st) =
       knowledge_items s0 @
       map (\<lambda>u. knowledge_row tn base u (page_text w u)) (filter (counted w tn base) (visited st)) \<and>
     embeddings (cstore st) =
       embeddings s0 @
       map (embedding_row w tn)
         (filter (\<lambda>u. counted w tn base u \<and> embedded w tn u) (visited st))"

definition reaches_crawl ::
  "world \<Rightarrow> admin_request \<Rightarrow> jsstring \<Rightarrow> tenant \<Rightarrow> url \<Rightarrow> bool" where
  "reaches_crawl w rq slug tn base \<longleftrightarrow>
     \<not> rq_null rq \<and> \<not> unauthorized w rq \<and> rq_slug rq = Some slug \<and> slug \<noteq> [] \<and>
     tenant_lookup w slug = Some tn \<and>
     (case rq_url rq of
        Some targetUrl \<Rightarrow> targetUrl \<noteq> [] \<and> normalizeUrl w targetUrl = Some base
      | None \<Rightarrow> False)"

definition cleared :: "world \<Rightarrow> tenant \<Rightarrow> store \<Rightarrow> store" where
  "cleared w tn s = delete_knowledge w (tid tn) (delete_embeddings w (tid tn) s)"

text \<open>The invariant of the crawl loop of the script.\<close>

definition script_shape :: "url \<Rightarrow> nat \<Rightarrow> script_state \<Rightarrow> bool" where
  "script_shape start maxPages st \<longleftrightarrow>
     s_fetched st = s_visited st \<and> distinct (s_visited st) \<and>
     length (s_visited st) \<le> maxPages \<and>
     (\<forall>u\<in>set (s_visited st) \<union> set (toVisit st). hostname u = hostname start) \<and>
     (normalizeUrl_script start \<in> set (s_visited st) \<or>
      s_visited st = [] \<and> toVisit st = [start])"

subsection \<open>A concrete site\<close>

definition seed_url :: url where
  "seed_url = \<lparr>scheme = lit ''https'', hostname = lit ''a.example'', port = [],
               pathname = lit ''/'', search = [], hash = []\<rparr>"

definition about_url :: url where
  "about_url = seed_url\<lparr>pathname := lit ''/about''\<rparr>"

text \<open>The same host over another scheme: another origin.\<close>

definition insecure_url :: url where
  "insecure_url = seed_url\<lparr>scheme := lit ''http'', pathname := lit ''/x''\<rparr>"

definition seed_page :: page where
  "seed_page =
     \<lparr>extracted_text = replicate 8001 0x61,
      anchor_hrefs = [lit ''/about'', lit ''#top'', lit ''http://a.example/x''],
      dom_hrefs = [Some (lit ''/about''), None, Some (lit ''http://a.example/x'')],
      article_text = Some (lit ''aaaaaaaaaaaaaaaaaaaaaaaa''),
      body_text = None\<rparr>"

definition about_page :: page where
  "about_page =
     \<lparr>extracted_text = replicate 300 0x62, anchor_hrefs = [], dom_hrefs = [],
      article_text = Some (lit ''bbbbbbbbbbbbbbbbbbbbbbbb''), body_text = None\<rparr>"

definition the_site :: "url \<Rightarrow> fetch_result" where
  "the_site u =
     (if u = seed_url then FetchOk seed_page
      else if u = about_url then FetchOk about_page
      else FetchNotOk)"

text \<open>
  The origin of a URL with the scheme \<^verbatim>\<open>http\<close> or \<^verbatim>\<open>https\<close>, the only ones of the site:
  scheme, host and port.
\<close>

definition web_origin :: "url \<Rightarrow> jsstring" where
  "web_origin u =
     scheme u @ lit ''://'' @ hostname u @ (if port u = [] then [] else lit '':'' @ port u)"

definition site_world :: world where
  "site_world =
     \<lparr>admin_password = Some (lit ''pw''),
      null_body_error = lit ''Cannot read properties of null'',
      tenant_lookup = (\<lambda>s. if s = lit ''kunden-muster'' then Some demo_tenant else None),
      parse_url = (\<lambda>s. if s = lit ''https://a.example/'' then Some seed_url else None),
      resolve_url = (\<lambda>h b. if h = lit ''/about'' then Some about_url
                           else if h = lit ''http://a.example/x'' then Some insecure_url
                           else None),
      url_origin = web_origin,
      fetch_page = the_site,
      refetch_page = the_site,
      store_accepts = (\<lambda>_. True),
      embedding = (\<lambda>_. Some [])\<rparr>"

definition admin_rq :: admin_request where
  "admin_rq = \<lparr>rq_null = False, rq_password = Some (lit ''pw''), rq_slug = Some (lit ''kunden-muster''),
               rq_url = Some (lit ''https://a.example/'')\<rparr>"

definition empty_store :: store where
  "empty_store = \<lparr>knowledge_items = [], embeddings = []\<rparr>"

definition wrong_rq :: admin_request where
  "wrong_rq = admin_rq\<lparr>rq_password := Some (lit ''no'')\<rparr>"

text \<open>The request whose body is the JSON value \<^verbatim>\<open>null\<close>: it has no field.\<close>

definition null_rq :: admin_request where
  "null_rq = \<lparr>rq_null = True, rq_password = None, rq_slug = None, rq_url = None\<rparr>"

subsection \<open>A site with failures\<close>

text \<open>
  The seed page links to three pages. The fetch of \<^verbatim>\<open>/about\<close> is rejected; the store refuses
  the knowledge item of \<^verbatim>\<open>/team\<close>; the embedding call throws on the text of \<^verbatim>\<open>/team\<close> and
  \<^verbatim>\<open>/contact\<close>; and the store refuses every embedding row.
\<close>

definition team_url :: url where
  "team_url = seed_url\<lparr>pathname := lit ''/team''\<rparr>"

definition contact_url :: url where
  "contact_url = seed_url\<lparr>pathname := lit ''/contact''\<rparr>"

definition link_page :: page where
  "link_page =
     \<lparr>extracted_text = replicate 200 0x61,
      anchor_hrefs = [lit ''/about'', lit ''/team'', lit ''/contact''],
      dom_hrefs = [], article_text = None, body_text = None\<rparr>"

definition flaky_world :: world where
  "flaky_world =
     site_world
       \<lparr>resolve_url :=
          (\<lambda>h b. if h = lit ''/about'' then Some about_url
                 else if h = lit ''/team'' then Some team_url
                 else if h = lit ''/contact'' then Some contact_url
                 else None),
        fetch_page :=
          (\<lambda>u. if u = seed_url then FetchOk link_page
               else if u = about_url then FetchRejects
               else if u = team_url \<or> u = contact_url then FetchOk about_page
               else FetchNotOk),
        store_accepts :=
          (\<lambda>op. case op of
                  OpInsertKnowledge r \<Rightarrow> ki_url r \<noteq> Some team_url
                | OpInsertEmbedding r \<Rightarrow> False
                | _ \<Rightarrow> True),
        embedding := (\<lambda>c. if c = replicate 300 0x62 then None else Some [])\<rparr>"

text \<open>The site of before with a store that refuses every knowledge item.\<close>

definition refusing_world :: world where
  "refusing_world =
     site_world\<lparr>store_accepts :=
       (\<lambda>op. case op of OpInsertKnowledge r \<Rightarrow> False | _ \<Rightarrow> True)\<rparr>"

subsection \<open>Concrete runs of the script; rows added by a run\<close>

text \<open>The site with an embedding capability that fails on the text of the seed page.\<close>

definition strict_world :: world where
  "strict_world =
     site_world\<lparr>embedding :=
       (\<lambda>c. if c = lit ''aaaaaaaaaaaaaaaaaaaaaaaa'' then None else Some [])\<rparr>"

definition chunk_row :: "url \<Rightarrow> jsstring \<Rightarrow> ki_row" where
  "chunk_row u c =
     \<lparr>ki_tenant_id = lit ''t1'', ki_title = None, ki_url = None, ki_source = Some u,
      ki_content = c\<rparr>"

definition chunk_emb :: "jsstring \<Rightarrow> emb_row" where
  "chunk_emb c = \<lparr>emb_tenant_id = lit ''t1'', emb_content = c, emb_vector = []\<rparr>"

definition script_store :: store where
  "script_store =
     \<lparr>knowledge_items =
        [chunk_row seed_url (lit ''aaaaaaaaaaaaaaaaaaaaaaaa''),
         chunk_row about_url (lit ''bbbbbbbbbbbbbbbbbbbbbbbb'')],
      embeddings =
        [chunk_emb (lit ''aaaaaaaaaaaaaaaaaaaaaaaa''),
         chunk_emb (lit ''bbbbbbbbbbbbbbbbbbbbbbbb'')]\<rparr>"

definition script_ops :: "store_op list" where
  "script_ops =
     [OpTenantLookup (lit ''kunden-muster''),
      OpInsertKnowledge (chunk_row seed_url (lit ''aaaaaaaaaaaaaaaaaaaaaaaa'')),
      OpInsertEmbedding (chunk_emb (lit ''aaaaaaaaaaaaaaaaaaaaaaaa'')),
      OpInsertKnowledge (chunk_row about_url (lit ''bbbbbbbbbbbbbbbbbbbbbbbb'')),
      OpInsertEmbedding (chunk_emb (lit ''bbbbbbbbbbbbbbbbbbbbbbbb''))]"

text \<open>The rows a run added are those after the rows it found; the contents of the
  embeddings added are, position by position, the contents of the knowledge items added.\<close>

definition contents_paired :: "store \<Rightarrow> store \<Rightarrow> bool" where
  "contents_paired s0 s1 \<longleftrightarrow>
     (let ks = drop (length (knowledge_items s0)) (knowledge_items s1);
          es = drop (length (embeddings s0)) (embeddings s1)
      in map emb_content es = take (length es) (map ki_content ks))"

definition rows_inv :: "store \<Rightarrow> ingest_state \<Rightarrow> bool" where
  "rows_inv s0 st \<longleftrightarrow>
     take (length (knowledge_items s0)) (knowledge_items (i_store st)) = knowledge_items s0 \<and>
     take (length (embeddings s0)) (embeddings (i_store st)) = embeddings s0 \<and>
     length (knowledge_items s0) \<le> length (knowledge_items (i_store st)) \<and>
     length (embeddings s0) \<le> length (embeddings (i_store st)) \<and>
     contents_paired s0 (i_store st) \<and>
     length (embeddings (i_store st)) - length (embeddings s0)
       \<le> length (knowledge_items (i_store st)) - length (knowledge_items s0) \<and>
     (\<not> i_failed st \<longrightarrow>
        length (embeddings (i_store st)) - length (embeddings s0)
          = length (knowledge_items (i_store st)) - length (knowledge_items s0))"

section \<open>Properties of the chat route\<close>

lemma json_sel [simp]: "status (json st kvs) = st" "body (json st kvs) = kvs"
  by (simp_all add: json_def)

subsection \<open>The retrieval ranker\<close>

lemma sort_desc_sorted: "sorted (map (\<lambda>m. - sim m) (sort_desc ms))"
  by (simp add: sort_desc_def)

lemma sort_desc_idem: "sort_desc (sort_desc ms) = sort_desc ms"
  unfolding sort_desc_def by (rule sort_key_id_if_sorted) simp

lemma sort_desc_Nil [simp]: "sort_desc xs = [] \<longleftrightarrow> xs = []"
  unfolding sort_desc_def by (metis length_sort length_0_conv)

text \<open>Sorting \<^verbatim>\<open>above\<close> a second time changes nothing, and \<^verbatim>\<open>above\<close> is empty exactly
  when no match clears the threshold.\<close>

lemma rank_eq_spec: "rank T K scored = spec_rank T K scored"
proof (cases "\<exists>m\<in>set scored. clears T m")
  case True
  then have "sort_desc (filter (clears T) scored) \<noteq> []"
    by (simp add: filter_empty_conv)
  with True show ?thesis
    by (simp add: rank_def spec_rank_def candidates_def Let_def sort_desc_idem)
next
  case False
  then have "sort_desc (filter (clears T) scored) = []"
    by (simp add: filter_empty_conv)
  with False show ?thesis
    by (simp add: rank_def spec_rank_def candidates_def Let_def)
qed

lemma sorted_desc_wrt:
  "sorted (map (\<lambda>m. - sim m) xs) \<Longrightarrow> sorted_wrt (\<lambda>a b. sim b \<le> sim a) xs"
  by (induction xs) auto

lemma spec_rank_props:
  "sorted_wrt (\<lambda>a b. sim b \<le> sim a) (spec_rank T K scored)"
  "length (spec_rank T K scored) = min K (length (candidates T scored))"
  "mset (spec_rank T K scored) \<subseteq># mset (candidates T scored)"
proof -
  let ?s = "sort_desc (candidates T scored)"
  have "sorted_wrt (\<lambda>a b. sim b \<le> sim a) ?s"
    by (rule sorted_desc_wrt) (rule sort_desc_sorted)
  then show "sorted_wrt (\<lambda>a b. sim b \<le> sim a) (spec_rank T K scored)"
    unfolding spec_rank_def by (rule sorted_wrt_take)
  show "length (spec_rank T K scored) = min K (length (candidates T scored))"
    by (simp add: spec_rank_def sort_desc_def min.commute)
  have "mset (take K ?s) \<subseteq># mset ?s"
    by (metis append_take_drop_id mset_append mset_subset_eq_add_left)
  then show "mset (spec_rank T K scored) \<subseteq># mset (candidates T scored)"
    by (simp add: spec_rank_def sort_desc_def)
qed

text \<open>What the handler of \<^verbatim>\<open>part_000\<close> sends to the generation capability.\<close>

lemma POST_000_generates:
  assumes "\<not> body_null req"
    and "nullish (body_message req) (query_message req) = Some m" and "m \<noteq> []"
    and "nullish (body_slug req) (nullish (query_slug req) (header_slug req)) = Some s"
    and "s \<noteq> []"
    and "tenant_row w s = Some tn"
    and "query_debug req \<noteq> Some (lit ''1'')"
    and "fst (ragSearch w (tid tn) m 4) = Some matches"
    and "scored_of matches \<noteq> []"
  shows "last (snd (POST_000 w req)) =
           CallGenerate \<lparr>g_company = tname tn,
                         g_fallback = fallback_message (getTenantSettings w (tid tn)),
                         g_message = m,
                         g_kb = kb_text (rank MIN_SIMILARITY_000 4 (scored_of matches))\<rparr>"
  using assms
  by (simp add: POST_000_def Let_def getTenantBySlug_def case_prod_beta generate_def
      split: completion_result.splits)

text \<open>
  Claim C1, as stated: the retrieval ranker returns the matches that clear the threshold
  if there is one and otherwise all remaining matches, sorted by descending score and
  capped. The handler of \<^verbatim>\<open>part_002\<close> does not: with the scores 0.3 and 0.2, none of which
  clears its threshold 0.75, the policy selects both matches, but the handler keeps none
  and answers with the fallback message.
\<close>

theorem hard_threshold_part_002_counterexample:
  "scored_of [mk_match 0.3, mk_match 0.2] = [mk_match 0.3, mk_match 0.2] \<and>
   spec_rank MIN_SIMILARITY_002 4 [mk_match 0.3, mk_match 0.2] = [mk_match 0.3, mk_match 0.2] \<and>
   relevantMatches MIN_SIMILARITY_002 [mk_match 0.3, mk_match 0.2] = [] \<and>
   fst (POST_002 (kb_world [mk_match 0.3, mk_match 0.2]) req_demo)
     = fallback_response default_settings"
  by (simp add: scored_of_def usable_def mk_match_def lit_def js_trim_def is_ws_def
        clears_def sort_desc_def sim_def Let_def spec_rank_def candidates_def relevantMatches_def
        MIN_SIMILARITY_002_def POST_002_def kb_world_def demo_world_def req_demo_def req_hi_def
        req_empty_def nullish_def getTenantBySlug_def getTenantSettings_def ragSearch_def)

text \<open>
  Claim C1, amended: in the handler of \<^verbatim>\<open>part_000\<close>, for every list of matches, the
  selection \<open>rank T K\<close> applied to the usable matches (numeric score, content not blank)
  is the policy of the specification: sorted by descending score, of length
  \<open>min K\<close> of the number of candidates, drawn from the candidates, and not empty when a
  usable match exists. Scores 0.9, 0.3, 0.1 with threshold 0.5 give 0.9; scores 0.3, 0.2
  give 0.3, 0.2. A request that reaches generation sends the selection for the
  threshold 0.20 and the cap 4 as its knowledge.
\<close>

theorem soft_threshold_rank:
  "rank T K (scored_of matches) = spec_rank T K (scored_of matches) \<and>
   sorted_wrt (\<lambda>a b. sim b \<le> sim a) (rank T K (scored_of matches)) \<and>
   length (rank T K (scored_of matches)) = min K (length (candidates T (scored_of matches))) \<and>
   mset (rank T K (scored_of matches)) \<subseteq># mset (candidates T (scored_of matches)) \<and>
   (scored_of matches \<noteq> [] \<and> 0 < K \<longrightarrow> rank T K (scored_of matches) \<noteq> []) \<and>
   map sim (rank 0.5 4 (scored_of [mk_match 0.9, mk_match 0.3, mk_match 0.1])) = [0.9] \<and>
   map sim (rank 0.5 4 (scored_of [mk_match 0.3, mk_match 0.2])) = [0.3, 0.2] \<and>
   (\<not> body_null req \<and>
    nullish (body_message req) (query_message req) = Some m \<and> m \<noteq> [] \<and>
    nullish (body_slug req) (nullish (query_slug req) (header_slug req)) = Some s \<and>
    s \<noteq> [] \<and> tenant_row w s = Some tn \<and> query_debug req \<noteq> Some (lit ''1'') \<and>
    fst (ragSearch w (tid tn) m 4) = Some matches \<and> scored_of matches \<noteq> [] \<longrightarrow>
    last (snd (POST_000 w req)) =
      CallGenerate \<lparr>g_company = tname tn,
                    g_fallback = fallback_message (getTenantSettings w (tid tn)),
                    g_message = m,
                    g_kb = kb_text (spec_rank MIN_SIMILARITY_000 4 (scored_of matches))\<rparr>)"
proof -
  have ne: "scored_of matches \<noteq> [] \<Longrightarrow> candidates T (scored_of matches) \<noteq> []"
    by (auto simp add: candidates_def filter_empty_conv)
  have "scored_of matches \<noteq> [] \<and> 0 < K \<longrightarrow> spec_rank T K (scored_of matches) \<noteq> []"
    using ne by (auto simp add: spec_rank_def)
  moreover have
    "map sim (rank 0.5 4 (scored_of [mk_match 0.9, mk_match 0.3, mk_match 0.1])) = [0.9]"
    by (simp add: rank_def scored_of_def usable_def mk_match_def lit_def js_trim_def is_ws_def
        clears_def sort_desc_def sim_def Let_def)
  moreover have "map sim (rank 0.5 4 (scored_of [mk_match 0.3, mk_match 0.2])) = [0.3, 0.2]"
    by (simp add: rank_def scored_of_def usable_def mk_match_def lit_def js_trim_def is_ws_def
        clears_def sort_desc_def sim_def Let_def)
  ultimately show ?thesis
    using spec_rank_props [of T K "scored_of matches"]
      POST_000_generates [of req m s w tn matches]
    by (simp add: rank_eq_spec)
qed

theorem soft_threshold_rank_witness:
  "\<not> body_null req_demo \<and>
   scored_of [mk_match 0.9, mk_match 0.3, mk_match 0.1] \<noteq> [] \<and>
   rank MIN_SIMILARITY_000 4 (scored_of [mk_match 0.9, mk_match 0.3, mk_match 0.1])
     = [mk_match 0.9, mk_match 0.3] \<and>
   last (snd (POST_000 (kb_world [mk_match 0.9, mk_match 0.3, mk_match 0.1]) req_demo)) =
     CallGenerate \<lparr>g_company = lit ''Demo'',
                   g_fallback = fallback_message default_settings,
                   g_message = lit ''hi'',
                   g_kb = kb_text [mk_match 0.9, mk_match 0.3]\<rparr>"
  using soft_threshold_rank [of MIN_SIMILARITY_000 4
      "[mk_match 0.9, mk_match 0.3, mk_match 0.1]" req_demo "lit ''hi''"
      "lit ''kunden-muster''" "kb_world [mk_match 0.9, mk_match 0.3, mk_match 0.1]" demo_tenant]
  by (simp add: req_demo_def req_hi_def req_empty_def kb_world_def demo_world_def nullish_def
      lit_def ragSearch_def getTenantSettings_def scored_of_def usable_def mk_match_def
      js_trim_def is_ws_def demo_tenant_def spec_rank_def candidates_def clears_def
      sort_desc_def sim_def MIN_SIMILARITY_000_def Let_def)

subsection \<open>No knowledge\<close>

lemma ragSearch_no_generate: "filter is_generate (snd (ragSearch w t q k)) = []"
  by (simp add: ragSearch_def is_generate_def split: option.splits rpc_result.splits)

text \<open>
  Claim C2, as stated: when the vector search yields no usable match, the handler
  returns the fallback message with \<^verbatim>\<open>from_kb = false\<close> and never calls the generation
  capability. The handler of \<^verbatim>\<open>part_001\<close> does not: when the embedding call fails it
  still calls the generation capability (its last call), and its answer has no field
  \<^verbatim>\<open>from_kb\<close>.
\<close>

theorem no_match_part_001_counterexample:
  "fst (ragSearch demo_world (tid demo_tenant) (lit ''hi'') 4) = None \<and>
   is_generate (last (snd (POST_001 demo_world req_demo))) \<and>
   \<not> has_field (fst (POST_001 demo_world req_demo)) ''from_kb''"
  by (simp add: POST_001_def req_demo_def req_hi_def req_empty_def demo_world_def nullish_def
      Let_def getTenantBySlug_def getTenantSettings_def ragSearch_def generate_def lit_def
      has_field_def is_generate_def demo_tenant_def)

text \<open>
  Claim C2, amended: in the handler of \<^verbatim>\<open>part_000\<close>, for every request without
  \<^verbatim>\<open>debug=1\<close> that reaches the search (its JSON body is not \<^verbatim>\<open>null\<close>, and it names a
  message and the slug of a known tenant), if the search fails or
  none of its matches is usable (numeric score, content not blank), the response is the
  fallback response: status 200, the tenant's \<^verbatim>\<open>fallback_message\<close> as text,
  \<^verbatim>\<open>from_kb = false\<close>; and no call to the generation capability is made.
\<close>

theorem no_match_fallback:
  assumes "\<not> body_null req"
    and "nullish (body_message req) (query_message req) = Some m" and "m \<noteq> []"
    and "nullish (body_slug req) (nullish (query_slug req) (header_slug req)) = Some s"
    and "s \<noteq> []"
    and "tenant_row w s = Some tn"
    and "query_debug req \<noteq> Some (lit ''1'')"
    and "case fst (ragSearch w (tid tn) m 4) of None \<Rightarrow> True
         | Some ms \<Rightarrow> filter usable ms = []"
  shows "fst (POST_000 w req) = fallback_response (getTenantSettings w (tid tn)) \<and>
         status (fst (POST_000 w req)) = 200 \<and>
         field (fst (POST_000 w req)) ''text'' =
           Some (JStr (fallback_message (getTenantSettings w (tid tn)))) \<and>
         field (fst (POST_000 w req)) ''from_kb'' = Some (JBool False) \<and>
         filter is_generate (snd (POST_000 w req)) = []"
proof -
  have sc: "scored_of (case fst (ragSearch w (tid tn) m 4) of None \<Rightarrow> [] | Some ms \<Rightarrow> ms) = []"
    using assms(8) by (simp add: scored_of_def split: option.splits)
  have post: "POST_000 w req =
      (fallback_response (getTenantSettings w (tid tn)),
       [CallTenant s, CallSettings (tid tn)] @ snd (ragSearch w (tid tn) m 4))"
    using assms(1-7) sc
    by (simp add: POST_000_def Let_def getTenantBySlug_def case_prod_beta)
  show ?thesis
    using ragSearch_no_generate [of w "tid tn" m 4]
    by (simp add: post fallback_response_def field_def is_generate_def)
qed

theorem no_match_fallback_witness:
  "\<not> body_null req_demo \<and>
   nullish (body_message req_demo) (query_message req_demo) = Some (lit ''hi'') \<and>
   tenant_row demo_world (lit ''kunden-muster'') = Some demo_tenant \<and>
   fst (ragSearch demo_world (tid demo_tenant) (lit ''hi'') 4) = None \<and>
   fst (POST_000 demo_world req_demo) = fallback_response default_settings \<and>
   filter is_generate (snd (POST_000 demo_world req_demo)) = []"
  using no_match_fallback [of req_demo "lit ''hi''" "lit ''kunden-muster''" demo_world demo_tenant]
  by (simp add: req_demo_def req_hi_def req_empty_def demo_world_def nullish_def lit_def
      ragSearch_def getTenantSettings_def)

subsection \<open>The shape of the response\<close>

lemma three_fields_leaves:
  "three_fields (json 400 kvs)"
  "three_fields (server_error msg)"
  "three_fields (fallback_response se)"
  "three_fields (fst (generate w tn se m kb True))"
  by (simp_all add: three_fields_def server_error_def fallback_response_def generate_def Let_def
      split: completion_result.splits)

lemma POST_000_keys:
  "query_debug req \<noteq> Some (lit ''1'') \<Longrightarrow> three_fields (fst (POST_000 w req))"
  by (simp add: POST_000_def Let_def case_prod_beta three_fields_leaves split: option.splits)

lemma POST_002_keys:
  "query_debug req \<noteq> Some (lit ''1'') \<Longrightarrow> three_fields (fst (POST_002 w req))"
  by (simp add: POST_002_def Let_def case_prod_beta three_fields_leaves split: option.splits)

lemma POST_001_keys:
  "status (fst (POST_001 w req)) = 200 \<longrightarrow>
      map fst (body (fst (POST_001 w req))) = [''text'', ''welcome_message'']"
  by (simp add: POST_001_def Let_def case_prod_beta server_error_def generate_def
         split: option.splits completion_result.splits)

text \<open>
  Claim C5, as stated: every non-error chat response carries the three fields
  \<^verbatim>\<open>text\<close>, \<^verbatim>\<open>welcome_message\<close> and \<^verbatim>\<open>from_kb\<close>. The generated answer of \<^verbatim>\<open>part_001\<close> has
  status 200 and no field \<^verbatim>\<open>from_kb\<close>; the answer of \<^verbatim>\<open>part_000\<close> to a request with
  \<^verbatim>\<open>debug=1\<close> has status 200 and no field \<^verbatim>\<open>text\<close>.
\<close>

theorem response_fields_counterexample:
  "status (fst (POST_001 demo_world req_hi)) = 200 \<and>
   \<not> has_field (fst (POST_001 demo_world req_hi)) ''from_kb'' \<and>
   status (fst (POST_000 demo_world req_debug)) = 200 \<and>
   \<not> has_field (fst (POST_000 demo_world req_debug)) ''text''"
  by (simp add: POST_001_def POST_000_def req_hi_def req_debug_def req_demo_def req_empty_def
      demo_world_def nullish_def Let_def getTenantBySlug_def getTenantSettings_def ragSearch_def
      generate_def lit_def has_field_def scored_of_def)

text \<open>
  Claim C5, amended: in the handlers of \<^verbatim>\<open>part_000\<close> and \<^verbatim>\<open>part_002\<close>, every response
  with status 200 to a request without \<^verbatim>\<open>debug=1\<close> (a generated answer or the
  no-knowledge fallback) is an object with exactly the fields \<^verbatim>\<open>text\<close>,
  \<^verbatim>\<open>welcome_message\<close>, \<^verbatim>\<open>from_kb\<close>. In the handler of \<^verbatim>\<open>part_001\<close> every response with
  status 200 has exactly the fields \<^verbatim>\<open>text\<close> and \<^verbatim>\<open>welcome_message\<close>.
\<close>

theorem response_fields:
  "(status (fst (POST_000 w req)) = 200 \<and> query_debug req \<noteq> Some (lit ''1'') \<longrightarrow>
      map fst (body (fst (POST_000 w req))) = [''text'', ''welcome_message'', ''from_kb'']) \<and>
   (status (fst (POST_002 w req)) = 200 \<and> query_debug req \<noteq> Some (lit ''1'') \<longrightarrow>
      map fst (body (fst (POST_002 w req))) = [''text'', ''welcome_message'', ''from_kb'']) \<and>
   (status (fst (POST_001 w req)) = 200 \<longrightarrow>
      map fst (body (fst (POST_001 w req))) = [''text'', ''welcome_message''])"
  using POST_000_keys [of req w] POST_002_keys [of req w] POST_001_keys [of w req]
  by (simp add: three_fields_def)

theorem response_fields_witness:
  "status (fst (POST_000 demo_world req_demo)) = 200 \<and>
   status (fst (POST_002 demo_world req_demo)) = 200 \<and>
   status (fst (POST_001 demo_world req_demo)) = 200 \<and>
   query_debug req_demo \<noteq> Some (lit ''1'') \<and>
   map fst (body (fst (POST_000 demo_world req_demo)))
     = [''text'', ''welcome_message'', ''from_kb''] \<and>
   map fst (body (fst (POST_002 demo_world req_demo)))
     = [''text'', ''welcome_message'', ''from_kb''] \<and>
   map fst (body (fst (POST_001 demo_world req_demo))) = [''text'', ''welcome_message'']"
  using response_fields [of demo_world req_demo]
  by (simp add: POST_000_def POST_001_def POST_002_def req_demo_def req_hi_def req_empty_def
      demo_world_def nullish_def Let_def getTenantBySlug_def getTenantSettings_def
      ragSearch_def lit_def scored_of_def relevantMatches_def fallback_response_def
      generate_def)

subsection \<open>Missing fields\<close>

text \<open>
  Claim C6, as stated: for every chat request, an absent message gives status 400, and a
  slug absent from body, query string and header gives status 400 without resolving any
  tenant. The handler of \<^verbatim>\<open>part_001\<close> does not do the second: it substitutes the demo slug
  \<^verbatim>\<open>kunden-muster\<close> and resolves that tenant. At the request with a JSON object as body,
  the message \<^verbatim>\<open>hi\<close> and no slug anywhere it answers 200 and its first call is the tenant
  lookup.
\<close>

theorem chat_slug_absent_part_001_counterexample:
  "\<not> body_null req_hi \<and>
   body_slug req_hi = None \<and> query_slug req_hi = None \<and> header_slug req_hi = None \<and>
   status (fst (POST_001 demo_world req_hi)) = 200 \<and>
   hd (snd (POST_001 demo_world req_hi)) = CallTenant (lit ''kunden-muster'')"
  by (simp add: POST_001_def req_hi_def req_empty_def demo_world_def nullish_def Let_def
      getTenantBySlug_def getTenantSettings_def ragSearch_def generate_def lit_def)

text \<open>
  Claim C6, amended: for every chat request whose JSON body is not the value \<^verbatim>\<open>null\<close>, if the
  message is absent from body and query string, each of the three handlers answers 400;
  if the slug is absent from body, query string and header, the handlers of \<^verbatim>\<open>part_000\<close>
  and \<^verbatim>\<open>part_002\<close> answer 400 and make no call at all (so no tenant is resolved), and the
  handler of \<^verbatim>\<open>part_001\<close>, given a message, looks up the tenant \<^verbatim>\<open>kunden-muster\<close> first. A
  request whose JSON body is \<^verbatim>\<open>null\<close> is answered with status 500 by each of the three
  handlers, whatever the query string and the headers hold, and without any call: reading
  \<^verbatim>\<open>body.message\<close> throws, and the outer \<^verbatim>\<open>catch\<close> answers.
\<close>

theorem chat_missing_fields:
  "(\<not> body_null req \<and> body_message req = None \<and> query_message req = None \<longrightarrow>
      status (fst (POST_000 w req)) = 400 \<and> status (fst (POST_001 w req)) = 400 \<and>
      status (fst (POST_002 w req)) = 400) \<and>
   (\<not> body_null req \<and>
    body_slug req = None \<and> query_slug req = None \<and> header_slug req = None \<longrightarrow>
      status (fst (POST_000 w req)) = 400 \<and> snd (POST_000 w req) = [] \<and>
      status (fst (POST_002 w req)) = 400 \<and> snd (POST_002 w req) = [] \<and>
      (nullish (body_message req) (query_message req) \<notin> {None, Some []} \<longrightarrow>
         hd (snd (POST_001 w req)) = CallTenant (lit ''kunden-muster''))) \<and>
   (body_null req \<longrightarrow>
      POST_000 w req = (server_error (Some (type_error_text w)), []) \<and>
      POST_001 w req = (server_error (Some (type_error_text w)), []) \<and>
      POST_002 w req = (server_error (Some (type_error_text w)), []) \<and>
      status (server_error (Some (type_error_text w))) = 500)"
  by (auto simp add: POST_000_def POST_001_def POST_002_def nullish_def Let_def
      server_error_def json_def split: option.splits prod.splits)

theorem chat_missing_fields_witness:
  "\<not> body_null req_empty \<and> body_message req_empty = None \<and> query_message req_empty = None \<and>
   \<not> body_null req_hi \<and>
   body_slug req_hi = None \<and> query_slug req_hi = None \<and> header_slug req_hi = None \<and>
   nullish (body_message req_hi) (query_message req_hi) \<notin> {None, Some []} \<and>
   status (fst (POST_000 demo_world req_empty)) = 400 \<and>
   status (fst (POST_001 demo_world req_empty)) = 400 \<and>
   status (fst (POST_002 demo_world req_empty)) = 400 \<and>
   status (fst (POST_000 demo_world req_hi)) = 400 \<and> snd (POST_000 demo_world req_hi) = [] \<and>
   status (fst (POST_002 demo_world req_hi)) = 400 \<and> snd (POST_002 demo_world req_hi) = [] \<and>
   hd (snd (POST_001 demo_world req_hi)) = CallTenant (lit ''kunden-muster'') \<and>
   body_null req_null \<and> query_message req_null = Some (lit ''hi'') \<and>
   status (fst (POST_000 demo_world req_null)) = 500 \<and>
   status (fst (POST_001 demo_world req_null)) = 500 \<and>
   status (fst (POST_002 demo_world req_null)) = 500"
  using chat_missing_fields [of req_empty demo_world] chat_missing_fields [of req_hi demo_world]
    chat_missing_fields [of req_null demo_world]
  by (simp add: req_empty_def req_hi_def req_null_def nullish_def lit_def)

section \<open>Properties of the admin route\<close>

subsection \<open>Invariants of the crawl loop\<close>

lemma admin_loop_invariant:
  assumes "\<And>st. P st \<Longrightarrow> thrown st = None \<Longrightarrow> queue st \<noteq> [] \<Longrightarrow>
           length (visited st) < maxPages_admin \<Longrightarrow> P (admin_step w tn base st)"
    and "P st"
  shows "P (admin_loop w tn base st)"
  using assms
proof (induction w tn base st rule: admin_loop.induct)
  case (1 w tn base st)
  show ?case
  proof (cases "thrown st = None \<and> queue st \<noteq> [] \<and> length (visited st) < maxPages_admin")
    case True
    then have "P (admin_step w tn base st)"
      using "1.prems" by blast
    then have "P (admin_loop w tn base (admin_step w tn base st))"
      using "1.IH" True "1.prems"(1) by blast
    then show ?thesis
      using True by (subst admin_loop.simps) simp
  next
    case False
    then show ?thesis using "1.prems"(2) by (subst admin_loop.simps) auto
  qed
qed

lemma admin_loop_exit:
  "\<not> (thrown (admin_loop w tn base st) = None \<and> queue (admin_loop w tn base st) \<noteq> [] \<and>
      length (visited (admin_loop w tn base st)) < maxPages_admin)"
proof (induction w tn base st rule: admin_loop.induct)
  case (1 w tn base st)
  show ?case
  proof (cases "thrown st = None \<and> queue st \<noteq> [] \<and> length (visited st) < maxPages_admin")
    case True
    then show ?thesis using "1.IH" by (subst (1 2 3) admin_loop.simps) simp
  next
    case False
    then show ?thesis by (subst (1 2 3) admin_loop.simps) auto
  qed
qed

lemma page_text_ok: "fetch_page w u = FetchOk pg \<Longrightarrow> page_text w u = extracted_text pg"
  by (simp add: page_text_def)

lemma counted_ok:
  "fetch_page w u = FetchOk pg \<Longrightarrow>
   counted w tn base u \<longleftrightarrow>
     200 \<le> length (extracted_text pg) \<and>
     store_accepts w (OpInsertKnowledge (knowledge_row tn base u (extracted_text pg)))"
  by (simp add: counted_def)

lemma counted_not:
  "fetch_page w u = FetchRejects \<Longrightarrow> \<not> counted w tn base u"
  "fetch_page w u = FetchNotOk \<Longrightarrow> \<not> counted w tn base u"
  "fetch_page w u = FetchBodyFails e \<Longrightarrow> \<not> counted w tn base u"
  by (simp_all add: counted_def)

lemma embedded_some:
  assumes "fetch_page w u = FetchOk pg" and "embedding w (take 8000 (extracted_text pg)) = Some v"
  shows "embedding_row w tn u =
           \<lparr>emb_tenant_id = tid tn, emb_content = take 8000 (extracted_text pg), emb_vector = v\<rparr>"
    and "embedded w tn u \<longleftrightarrow>
           store_accepts w (OpInsertEmbedding
             \<lparr>emb_tenant_id = tid tn, emb_content = take 8000 (extracted_text pg), emb_vector = v\<rparr>)"
  using assms by (simp_all add: embedded_def embedding_row_def page_text_def)

lemma embedded_none:
  assumes "fetch_page w u = FetchOk pg" and "embedding w (take 8000 (extracted_text pg)) = None"
  shows "\<not> embedded w tn u"
  using assms by (simp add: embedded_def page_text_def)

lemma crawl_rows_step:
  assumes "crawl_rows w tn base s0 st"
  shows "crawl_rows w tn base s0 (admin_step w tn base st)"
proof (cases "queue st")
  case Nil
  then show ?thesis using assms by (simp add: admin_step_def)
next
  case (Cons current rest)
  show ?thesis
  proof (cases "current \<in> set (visited st)")
    case True
    then show ?thesis
      using assms Cons by (simp add: admin_step_def crawl_rows_def)
  next
    case False
    show ?thesis
    proof (cases "fetch_page w current")
      case (FetchOk pg)
      note facts = counted_ok [OF FetchOk] page_text_ok [OF FetchOk]
      show ?thesis
      proof (cases "embedding w (take 8000 (extracted_text pg))")
        case None
        note emb = embedded_none [OF FetchOk None]
        show ?thesis
        proof (cases "current = base")
          case True
          then show ?thesis
            using assms Cons False FetchOk None facts emb
            by (simp add: admin_step_def Let_def crawl_rows_def embed_page_def
                insert_knowledge_def)
        next
          case neq: False
          then show ?thesis
            using assms Cons False FetchOk None facts emb
            by (simp add: admin_step_def Let_def crawl_rows_def embed_page_def
                insert_knowledge_def)
        qed
      next
        case (Some v)
        note emb = embedded_some [OF FetchOk Some]
        show ?thesis
        proof (cases "current = base")
          case True
          then show ?thesis
            using assms Cons False FetchOk Some facts emb
            by (simp add: admin_step_def Let_def crawl_rows_def embed_page_def
                insert_knowledge_def insert_embedding_def)
        next
          case neq: False
          then show ?thesis
            using assms Cons False FetchOk Some facts emb
            by (simp add: admin_step_def Let_def crawl_rows_def embed_page_def
                insert_knowledge_def insert_embedding_def)
        qed
      qed
    qed (use assms Cons False in
          \<open>simp_all add: admin_step_def Let_def crawl_rows_def counted_not\<close>)
  qed
qed


lemma set_dedup [simp]: "set (dedup xs) = set xs"
  by (simp add: dedup_def)

lemma distinct_dedup [simp]: "distinct (dedup xs)"
  by (simp add: dedup_def)

lemma extractLinks_origin:
  "u \<in> set (extractLinks w hrefs base) \<Longrightarrow> url_origin w u = url_origin w base"
  by (auto simp add: extractLinks_def List.map_filter_def split: if_splits option.splits)

lemma distinct_extractLinks: "distinct (extractLinks w hrefs base)"
  by (simp add: extractLinks_def)

lemma admin_step_visited:
  assumes "queue st = current # rest" and "current \<notin> set (visited st)"
  shows "visited (admin_step w tn base st) = visited st @ [current]"
    and "fetched (admin_step w tn base st) = fetched st @ [current]"
  using assms
  by (simp_all add: admin_step_def Let_def embed_page_def
      split: fetch_result.splits option.splits)

lemma admin_step_queue_other:
  assumes "queue st = current # rest" and "current \<noteq> base"
  shows "queue (admin_step w tn base st) = rest"
  using assms
  by (simp add: admin_step_def Let_def embed_page_def split: fetch_result.splits option.splits)

lemma admin_step_queue_seed:
  assumes "queue st = [base]" and "visited st = []"
  shows "queue (admin_step w tn base st) = seed_links w tn base"
proof (cases "fetch_page w base")
  case (FetchOk pg)
  have f: "(\<lambda>l. l \<notin> set [base]) = (\<lambda>l. l \<noteq> base)" by auto
  show ?thesis
    using assms FetchOk counted_ok [OF FetchOk, of tn base]
    by (auto simp add: admin_step_def Let_def seed_links_def embed_page_def
        split: option.splits)
qed (use assms in \<open>simp_all add: admin_step_def Let_def seed_links_def\<close>)

lemma distinct_seed_links: "distinct (base # seed_links w tn base)"
  by (simp add: seed_links_def distinct_extractLinks split: fetch_result.splits)

lemma crawl_shape_step:
  assumes "crawl_shape w tn base st" and "queue st \<noteq> []"
    and "length (visited st) < maxPages_admin"
  shows "crawl_shape w tn base (admin_step w tn base st)"
proof (cases "visited st = []")
  case True
  then have q: "queue st = [base]" using assms(1) by (simp add: crawl_shape_def)
  have nv: "base \<notin> set (visited st)" using True by simp
  show ?thesis
    using assms(1) True q admin_step_visited [OF q nv, of w tn base]
      admin_step_queue_seed [OF q True, of w tn] distinct_seed_links [of base w tn]
    by (simp add: crawl_shape_def maxPages_admin_def)
next
  case False
  then have sh: "visited st @ queue st = base # seed_links w tn base"
    and d: "distinct (visited st @ queue st)" and f: "fetched st = visited st"
    using assms(1) unfolding crawl_shape_def by blast+
  obtain current rest where q: "queue st = current # rest"
    using assms(2) by (cases "queue st") auto
  have nv: "current \<notin> set (visited st)" using d q by auto
  have "hd (visited st) = base" using sh False by (metis hd_append2 list.sel(1))
  then have "base \<in> set (visited st)" using False by (metis hd_in_set)
  then have nb: "current \<noteq> base" using nv by auto
  show ?thesis
    using sh d f q False assms(3) admin_step_visited [OF q nv, of w tn base]
      admin_step_queue_other [OF q nb, of w tn] distinct_seed_links [of base w tn]
    by (simp add: crawl_shape_def)
qed

lemma crawl_origin_step:
  assumes "\<forall>u\<in>set (visited st @ queue st). url_origin w u = url_origin w base"
  shows "\<forall>u\<in>set (visited (admin_step w tn base st) @ queue (admin_step w tn base st)).
           url_origin w u = url_origin w base"
proof (cases "queue st")
  case Nil
  then show ?thesis using assms by (simp add: admin_step_def)
next
  case (Cons current rest)
  then show ?thesis
    using assms extractLinks_origin [of _ w _ base]
    by (auto simp add: admin_step_def Let_def embed_page_def dest!: in_set_takeD
        split: fetch_result.splits option.splits)
qed

lemma admin_step_thrown:
  assumes "queue st = current # rest" and "current \<notin> set (visited st)"
    and "thrown st = None"
  shows "(thrown (admin_step w tn base st) \<noteq> None) = body_fails w current"
  using assms
  by (simp add: admin_step_def Let_def embed_page_def body_fails_def
      split: fetch_result.splits option.splits)

lemma crawl_thrown_step:
  assumes "(thrown st \<noteq> None) = (\<exists>u\<in>set (visited st). body_fails w u)"
    and "thrown st = None"
  shows "(thrown (admin_step w tn base st) \<noteq> None) =
           (\<exists>u\<in>set (visited (admin_step w tn base st)). body_fails w u)"
proof (cases "queue st")
  case Nil
  then show ?thesis using assms by (simp add: admin_step_def)
next
  case (Cons current rest)
  show ?thesis
  proof (cases "current \<in> set (visited st)")
    case True
    then show ?thesis using assms Cons by (simp add: admin_step_def)
  next
    case False
    show ?thesis
      using assms admin_step_thrown [OF Cons False assms(2), of w tn base]
        admin_step_visited(1) [OF Cons False, of w tn base]
      by auto
  qed
qed


lemma POST_admin_run:
  "reaches_crawl w rq slug tn base \<Longrightarrow> POST_admin w rq s = admin_ingest w tn base slug s"
proof -
  assume a: "reaches_crawl w rq slug tn base"
  then obtain targetUrl where r: "rq_url rq = Some targetUrl" "targetUrl \<noteq> []"
    "normalizeUrl w targetUrl = Some base"
    by (cases "rq_url rq") (simp_all add: reaches_crawl_def)
  from a have r2: "\<not> rq_null rq" "\<not> unauthorized w rq" "rq_slug rq = Some slug"
    "slug \<noteq> []" "tenant_lookup w slug = Some tn"
    by (simp_all add: reaches_crawl_def)
  show ?thesis
    by (simp add: POST_admin_def r r2)
qed


lemma admin_loop_final:
  fixes w tn base s0 os
  defines "st \<equiv> admin_loop w tn base (initial_crawl base s0 os)"
  shows "crawl_shape w tn base st"
    and "crawl_rows w tn base s0 st"
    and "\<forall>u\<in>set (visited st @ queue st). url_origin w u = url_origin w base"
    and "(thrown st \<noteq> None) = (\<exists>u\<in>set (visited st). body_fails w u)"
    and "visited st \<noteq> []"
    and "thrown st = None \<Longrightarrow> visited st = take maxPages_admin (base # seed_links w tn base)"
proof -
  let ?i = "initial_crawl base s0 os"
  let ?Q = "\<lambda>st. crawl_shape w tn base st \<and>
                 ((thrown st \<noteq> None) = (\<exists>u\<in>set (visited st). body_fails w u))"
  have "?Q st"
    unfolding st_def
  proof (rule admin_loop_invariant [where P = ?Q])
    show "?Q ?i" by (simp add: initial_crawl_def crawl_shape_def)
  next
    fix st assume "?Q st" and g: "thrown st = None" "queue st \<noteq> []"
      "length (visited st) < maxPages_admin"
    then show "?Q (admin_step w tn base st)"
      using crawl_shape_step [of w tn base st] crawl_thrown_step [of st w tn base] by simp
  qed
  then show sh: "crawl_shape w tn base st"
    and th: "(thrown st \<noteq> None) = (\<exists>u\<in>set (visited st). body_fails w u)"
    by simp_all
  show "crawl_rows w tn base s0 st"
    unfolding st_def
  proof (rule admin_loop_invariant [where P = "crawl_rows w tn base s0"])
    show "crawl_rows w tn base s0 ?i" by (simp add: initial_crawl_def crawl_rows_def)
  qed (rule crawl_rows_step)
  show "\<forall>u\<in>set (visited st @ queue st). url_origin w u = url_origin w base"
    unfolding st_def
  proof (rule admin_loop_invariant
          [where P = "\<lambda>st. \<forall>u\<in>set (visited st @ queue st). url_origin w u = url_origin w base"])
    show "\<forall>u\<in>set (visited ?i @ queue ?i). url_origin w u = url_origin w base"
      by (simp add: initial_crawl_def)
  qed (rule crawl_origin_step)
  have ex: "\<not> (thrown st = None \<and> queue st \<noteq> [] \<and> length (visited st) < maxPages_admin)"
    unfolding st_def by (rule admin_loop_exit)
  show ne: "visited st \<noteq> []"
  proof
    assume e: "visited st = []"
    then have "queue st = [base]" using sh by (simp add: crawl_shape_def)
    moreover have "thrown st = None" using th e by simp
    ultimately show False using ex e by (simp add: maxPages_admin_def)
  qed
  show "visited st = take maxPages_admin (base # seed_links w tn base)" if "thrown st = None"
  proof -
    have eq: "visited st @ queue st = base # seed_links w tn base"
      and le: "length (visited st) \<le> maxPages_admin"
      using sh ne by (simp_all add: crawl_shape_def)
    have "queue st = [] \<or> length (visited st) = maxPages_admin"
      using ex that le by auto
    then show ?thesis
    proof
      assume "queue st = []"
      then show ?thesis using eq le by (metis append_Nil2 take_all)
    next
      assume "length (visited st) = maxPages_admin"
      then show ?thesis using eq by (metis append_eq_conv_conj)
    qed
  qed
qed


lemma admin_ingest_facts:
  fixes w tn base slug s
  defines "out \<equiv> admin_ingest w tn base slug s"
  shows "distinct (fetches out)"
    and "length (fetches out) \<le> maxPages_admin"
    and "base \<in> set (fetches out)"
    and "\<forall>u\<in>set (fetches out). url_origin w u = url_origin w base"
    and "(\<exists>e. response out = ServerError e) = (\<exists>u\<in>set (fetches out). body_fails w u)"
    and "response out = Ingested tn' n items \<Longrightarrow>
           tn' = tn \<and> n = length items \<and>
           items = map (\<lambda>u. (u, page_title base u)) (filter (counted w tn base) (fetches out)) \<and>
           fetches out = take maxPages_admin (base # seed_links w tn base)"
    and "knowledge_items (store_after out) =
           knowledge_items (cleared w tn s) @
           map (\<lambda>u. knowledge_row tn base u (page_text w u))
             (filter (counted w tn base) (fetches out))"
    and "embeddings (store_after out) =
           embeddings (cleared w tn s) @
           map (embedding_row w tn)
             (filter (\<lambda>u. counted w tn base u \<and> embedded w tn u) (fetches out))"
proof -
  let ?os = "[OpTenantLookup slug, OpDeleteEmbeddings (tid tn), OpDeleteKnowledge (tid tn)]"
  let ?st = "admin_loop w tn base (initial_crawl base (cleared w tn s) ?os)"
  note fin = admin_loop_final [of w tn base "cleared w tn s" ?os]
  have out: "out = \<lparr>response =
            (case thrown ?st of
               Some e \<Rightarrow> ServerError e
             | None \<Rightarrow> Ingested tn (length (createdItems ?st)) (createdItems ?st)),
          store_after = cstore ?st, store_ops = ops ?st, fetches = fetched ?st\<rparr>"
    unfolding out_def admin_ingest_def cleared_def Let_def ..
  have fv: "fetched ?st = visited ?st"
    using fin(1) unfolding crawl_shape_def by blast
  have f: "fetches out = visited ?st" and sa: "store_after out = cstore ?st"
    using fv by (simp_all add: out)
  have sh: "distinct (visited ?st @ queue ?st)" "length (visited ?st) \<le> maxPages_admin"
    "visited ?st @ queue ?st = base # seed_links w tn base"
    using fin(1) fin(5) unfolding crawl_shape_def by blast+
  show "distinct (fetches out)" using sh(1) by (simp add: f)
  show "length (fetches out) \<le> maxPages_admin" using sh(2) by (simp add: f)
  show "base \<in> set (fetches out)"
    using sh(3) fin(5) by (cases "visited ?st") (simp_all add: f)
  show "\<forall>u\<in>set (fetches out). url_origin w u = url_origin w base" using fin(3) by (simp add: f)
  show "(\<exists>e. response out = ServerError e) = (\<exists>u\<in>set (fetches out). body_fails w u)"
    using fin(4) by (cases "thrown ?st") (simp_all add: out fv)
  show "knowledge_items (store_after out) =
           knowledge_items (cleared w tn s) @
           map (\<lambda>u. knowledge_row tn base u (page_text w u))
             (filter (counted w tn base) (fetches out))"
    using fin(2) by (simp add: crawl_rows_def f sa)
  show "embeddings (store_after out) =
           embeddings (cleared w tn s) @
           map (embedding_row w tn)
             (filter (\<lambda>u. counted w tn base u \<and> embedded w tn u) (fetches out))"
    using fin(2) by (simp add: crawl_rows_def f sa)
  show "tn' = tn \<and> n = length items \<and>
           items = map (\<lambda>u. (u, page_title base u)) (filter (counted w tn base) (fetches out)) \<and>
           fetches out = take maxPages_admin (base # seed_links w tn base)"
    if "response out = Ingested tn' n items"
  proof -
    have th: "thrown ?st = None" using that by (cases "thrown ?st") (simp_all add: out)
    then have "tn' = tn" "n = length (createdItems ?st)" "items = createdItems ?st"
      using that by (auto simp add: out)
    then show ?thesis
      using fin(2) fin(6) [OF th] by (simp add: crawl_rows_def f)
  qed
qed

subsection \<open>The concrete site, evaluated\<close>

lemmas site_defs = site_world_def the_site_def seed_url_def about_url_def insecure_url_def
  seed_page_def about_page_def admin_rq_def empty_store_def demo_tenant_def lit_def

lemma site_reaches:
  "reaches_crawl site_world admin_rq (lit ''kunden-muster'') demo_tenant seed_url"
  by (simp add: reaches_crawl_def unauthorized_def normalizeUrl_def site_world_def admin_rq_def
      lit_def)

lemma site_links: "seed_links site_world demo_tenant seed_url = [about_url]"
  by (simp add: seed_links_def counted_def extractLinks_def List.map_filter_def dedup_def
      starts_with_def web_origin_def knowledge_row_def site_defs)

lemma site_run:
  "POST_admin site_world admin_rq empty_store =
     \<lparr>response = Ingested demo_tenant 2 [(seed_url, lit ''Website''), (about_url, lit ''/about'')],
      store_after =
        \<lparr>knowledge_items =
           [knowledge_row demo_tenant seed_url seed_url (replicate 8001 0x61),
            knowledge_row demo_tenant seed_url about_url (replicate 300 0x62)],
         embeddings =
           [\<lparr>emb_tenant_id = lit ''t1'', emb_content = replicate 8000 0x61, emb_vector = []\<rparr>,
            \<lparr>emb_tenant_id = lit ''t1'', emb_content = replicate 300 0x62, emb_vector = []\<rparr>]\<rparr>,
      store_ops =
        [OpTenantLookup (lit ''kunden-muster''), OpDeleteEmbeddings (lit ''t1''),
         OpDeleteKnowledge (lit ''t1''),
         OpInsertKnowledge (knowledge_row demo_tenant seed_url seed_url (replicate 8001 0x61)),
         OpInsertEmbedding
           \<lparr>emb_tenant_id = lit ''t1'', emb_content = replicate 8000 0x61, emb_vector = []\<rparr>,
         OpInsertKnowledge (knowledge_row demo_tenant seed_url about_url (replicate 300 0x62)),
         OpInsertEmbedding
           \<lparr>emb_tenant_id = lit ''t1'', emb_content = replicate 300 0x62, emb_vector = []\<rparr>],
      fetches = [seed_url, about_url]\<rparr>"
  by (simp add: POST_admin_def admin_ingest_def admin_loop.simps admin_step_def Let_def
      unauthorized_def normalizeUrl_def initial_crawl_def maxPages_admin_def
      delete_embeddings_def delete_knowledge_def insert_knowledge_def insert_embedding_def
      embed_page_def knowledge_row_def page_title_def extractLinks_def List.map_filter_def
      dedup_def starts_with_def web_origin_def site_defs)

subsection \<open>Authorization\<close>

text \<open>
  Claim C8 says that every admin ingestion request whose password is missing (absent or
  empty) or differs from the secret \<^verbatim>\<open>ADMIN_PASSWORD\<close> is answered with 401 and performs no
  store operation. The handler does so for every request whose JSON body is not the value
  \<^verbatim>\<open>null\<close>: it answers 401, performs no tenant lookup, no deletion and no insert, leaves the
  store unchanged and fetches nothing. For the body \<^verbatim>\<open>null\<close>, which has no password, it
  answers 500 instead of 401: \<^verbatim>\<open>req.json()\<close> succeeds, so its \<^verbatim>\<open>catch\<close> does not substitute the
  empty object, reading \<^verbatim>\<open>body.password\<close> throws, and the outer \<^verbatim>\<open>catch\<close> answers with the
  message of the error. No store operation is performed in that case either.
\<close>

theorem unauthorized_response:
  "(rq_null rq \<longrightarrow>
      response (POST_admin w rq s) = ServerError (Some (null_body_error w)) \<and>
      admin_status (response (POST_admin w rq s)) = 500 \<and>
      store_after (POST_admin w rq s) = s \<and>
      store_ops (POST_admin w rq s) = [] \<and>
      fetches (POST_admin w rq s) = []) \<and>
   (\<not> rq_null rq \<and>
    (rq_password rq = None \<or> rq_password rq = Some [] \<or>
     rq_password rq \<noteq> admin_password w) \<longrightarrow>
      response (POST_admin w rq s) = Unauthorized \<and>
      admin_status (response (POST_admin w rq s)) = 401 \<and>
      store_after (POST_admin w rq s) = s \<and>
      store_ops (POST_admin w rq s) = [] \<and>
      fetches (POST_admin w rq s) = [])"
proof -
  have "unauthorized w rq"
    if "rq_password rq = None \<or> rq_password rq = Some [] \<or>
        rq_password rq \<noteq> admin_password w"
    using that by (cases "rq_password rq") (auto simp add: unauthorized_def)
  then show ?thesis
    by (auto simp add: POST_admin_def outcome_def admin_status_def)
qed

theorem unauthorized_response_witness:
  "rq_null null_rq \<and> rq_password null_rq = None \<and>
   response (POST_admin site_world null_rq (store_after (POST_admin site_world admin_rq empty_store)))
     = ServerError (Some (lit ''Cannot read properties of null'')) \<and>
   admin_status
     (response (POST_admin site_world null_rq (store_after (POST_admin site_world admin_rq empty_store))))
     = 500 \<and>
   store_ops (POST_admin site_world null_rq (store_after (POST_admin site_world admin_rq empty_store)))
     = [] \<and>
   \<not> rq_null wrong_rq \<and> rq_password wrong_rq \<noteq> admin_password site_world \<and>
   response (POST_admin site_world wrong_rq (store_after (POST_admin site_world admin_rq empty_store)))
     = Unauthorized \<and>
   store_after (POST_admin site_world wrong_rq (store_after (POST_admin site_world admin_rq empty_store)))
     = store_after (POST_admin site_world admin_rq empty_store) \<and>
   store_ops (POST_admin site_world wrong_rq (store_after (POST_admin site_world admin_rq empty_store)))
     = []"
proof -
  let ?s = "store_after (POST_admin site_world admin_rq empty_store)"
  have n: "rq_null null_rq" "rq_password null_rq = None"
    by (simp_all add: null_rq_def)
  have e: "null_body_error site_world = lit ''Cannot read properties of null''"
    by (simp add: site_world_def)
  have r: "\<not> rq_null wrong_rq" "rq_password wrong_rq \<noteq> admin_password site_world"
    by (simp_all add: wrong_rq_def admin_rq_def site_world_def lit_def)
  have a: "response (POST_admin site_world null_rq ?s) =
             ServerError (Some (null_body_error site_world)) \<and>
           admin_status (response (POST_admin site_world null_rq ?s)) = 500 \<and>
           store_after (POST_admin site_world null_rq ?s) = ?s \<and>
           store_ops (POST_admin site_world null_rq ?s) = [] \<and>
           fetches (POST_admin site_world null_rq ?s) = []"
    using unauthorized_response [of null_rq site_world ?s] n(1) by blast
  have b: "response (POST_admin site_world wrong_rq ?s) = Unauthorized \<and>
           admin_status (response (POST_admin site_world wrong_rq ?s)) = 401 \<and>
           store_after (POST_admin site_world wrong_rq ?s) = ?s \<and>
           store_ops (POST_admin site_world wrong_rq ?s) = [] \<and>
           fetches (POST_admin site_world wrong_rq ?s) = []"
    using unauthorized_response [of wrong_rq site_world ?s] r by blast
  show ?thesis
    using a b n r e by (simp add: admin_status_def)
qed

subsection \<open>What \<^verbatim>\<open>pages_processed\<close> counts\<close>

lemma ingested_length:
  "response (POST_admin w rq s) = Ingested tn' n items \<Longrightarrow> n = length items"
  by (auto simp add: POST_admin_def outcome_def admin_ingest_def Let_def
      split: option.splits if_splits)

text \<open>
  Claim C10: in every successful response of the admin route, \<^verbatim>\<open>pages_processed\<close> is the
  number of entries of \<^verbatim>\<open>items\<close>; the entries are, in the order of the fetches, the fetched
  pages that count: those that arrived with status OK, with at least 200 code units of
  extracted text, and whose knowledge item the store accepted. These are exactly the
  pages whose knowledge item was inserted. Whether a page counts does not depend on the
  embedding capability.
\<close>

theorem pages_processed_counts:
  "(response (POST_admin w rq s) = Ingested tn' n items \<longrightarrow> n = length items) \<and>
   (reaches_crawl w rq slug tn base \<and> response (POST_admin w rq s) = Ingested tn' n items \<longrightarrow>
      items = map (\<lambda>u. (u, page_title base u))
                (filter (counted w tn base) (fetches (POST_admin w rq s))) \<and>
      (\<forall>u. u \<in> fst ` set items \<longleftrightarrow>
             u \<in> set (fetches (POST_admin w rq s)) \<and> counted w tn base u) \<and>
      knowledge_items (store_after (POST_admin w rq s)) =
        knowledge_items (cleared w tn s) @
        map (\<lambda>(u, title). knowledge_row tn base u (page_text w u)) items \<and>
      (\<forall>u e. counted (w\<lparr>embedding := e\<rparr>) tn base u = counted w tn base u))"
proof -
  have a: "response (POST_admin w rq s) = Ingested tn' n items \<longrightarrow> n = length items"
    using ingested_length by blast
  have b: "items = map (\<lambda>u. (u, page_title base u))
                (filter (counted w tn base) (fetches (POST_admin w rq s))) \<and>
      (\<forall>u. u \<in> fst ` set items \<longleftrightarrow>
             u \<in> set (fetches (POST_admin w rq s)) \<and> counted w tn base u) \<and>
      knowledge_items (store_after (POST_admin w rq s)) =
        knowledge_items (cleared w tn s) @
        map (\<lambda>(u, title). knowledge_row tn base u (page_text w u)) items"
    if r: "reaches_crawl w rq slug tn base"
      and i: "response (POST_admin w rq s) = Ingested tn' n items"
  proof -
    have run: "POST_admin w rq s = admin_ingest w tn base slug s"
      using r by (rule POST_admin_run)
    have items: "items = map (\<lambda>u. (u, page_title base u))
                (filter (counted w tn base) (fetches (POST_admin w rq s)))"
      using admin_ingest_facts(6) [of w tn base slug s tn' n items] i by (simp add: run)
    have "fst ` set items = {u \<in> set (fetches (POST_admin w rq s)). counted w tn base u}"
      by (subst items) (auto simp add: image_iff)
    then have mem: "\<forall>u. u \<in> fst ` set items \<longleftrightarrow>
             u \<in> set (fetches (POST_admin w rq s)) \<and> counted w tn base u"
      by simp
    have "map (\<lambda>(u, title). knowledge_row tn base u (page_text w u)) items =
          map (\<lambda>u. knowledge_row tn base u (page_text w u))
            (filter (counted w tn base) (fetches (POST_admin w rq s)))"
      by (subst items) (simp add: comp_def)
    then have rows: "knowledge_items (store_after (POST_admin w rq s)) =
        knowledge_items (cleared w tn s) @
        map (\<lambda>(u, title). knowledge_row tn base u (page_text w u)) items"
      using admin_ingest_facts(7) [of w tn base slug s] by (simp add: run)
    show ?thesis using items mem rows by blast
  qed
  have c: "\<forall>u e. counted (w\<lparr>embedding := e\<rparr>) tn base u = counted w tn base u"
    by (simp add: counted_def split: fetch_result.splits)
  show ?thesis using a b c by blast
qed

theorem pages_processed_counts_witness:
  "reaches_crawl site_world admin_rq (lit ''kunden-muster'') demo_tenant seed_url \<and>
   response (POST_admin site_world admin_rq empty_store) =
     Ingested demo_tenant 2 [(seed_url, lit ''Website''), (about_url, lit ''/about'')] \<and>
   [(seed_url, lit ''Website''), (about_url, lit ''/about'')] =
     map (\<lambda>u. (u, page_title seed_url u))
       (filter (counted site_world demo_tenant seed_url)
          (fetches (POST_admin site_world admin_rq empty_store)))"
  using pages_processed_counts [of site_world admin_rq empty_store demo_tenant 2
      "[(seed_url, lit ''Website''), (about_url, lit ''/about'')]"
      "lit ''kunden-muster''" demo_tenant seed_url]
    site_reaches site_run
  by simp

section \<open>Properties of the ingest script\<close>

subsection \<open>Invariants of \<^verbatim>\<open>crawlSite\<close>\<close>

lemma crawl_loop_invariant:
  assumes "\<And>st. P st \<Longrightarrow> toVisit st \<noteq> [] \<Longrightarrow> length (s_visited st) < maxPages \<Longrightarrow>
             P (crawl_step w start maxPages st)"
    and "P st"
  shows "P (crawl_loop w start maxPages st)"
  using assms
proof (induction w start maxPages st rule: crawl_loop.induct)
  case (1 w start maxPages st)
  show ?case
  proof (cases "toVisit st \<noteq> [] \<and> length (s_visited st) < maxPages")
    case True
    then have "P (crawl_step w start maxPages st)"
      using "1.prems" by blast
    then have "P (crawl_loop w start maxPages (crawl_step w start maxPages st))"
      using "1.IH" True "1.prems"(1) by blast
    then show ?thesis
      using True by (subst crawl_loop.simps) simp
  next
    case False
    then show ?thesis using "1.prems"(2) by (subst crawl_loop.simps) auto
  qed
qed

lemma crawl_loop_exit:
  "\<not> (toVisit (crawl_loop w start maxPages st) \<noteq> [] \<and>
      length (s_visited (crawl_loop w start maxPages st)) < maxPages)"
proof (induction w start maxPages st rule: crawl_loop.induct)
  case (1 w start maxPages st)
  show ?case
  proof (cases "toVisit st \<noteq> [] \<and> length (s_visited st) < maxPages")
    case True
    then show ?thesis using "1.IH" by (subst (1 2) crawl_loop.simps) simp
  next
    case False
    then show ?thesis by (subst (1 2) crawl_loop.simps) auto
  qed
qed

lemma foldl_enqueue_fetched [simp]:
  "s_fetched (foldl (enqueue n) st ls) = s_fetched st"
  by (induction ls arbitrary: st) (simp_all add: enqueue_def)

lemma enqueue_toVisit: "set (toVisit (enqueue n st a)) \<subseteq> insert a (set (toVisit st))"
  by (auto simp add: enqueue_def)

lemma foldl_enqueue_toVisit:
  "set (toVisit (foldl (enqueue n) st ls)) \<subseteq> set (toVisit st) \<union> set ls"
proof (induction ls arbitrary: st)
  case Nil
  then show ?case by simp
next
  case (Cons a ls)
  have "set (toVisit (foldl (enqueue n) (enqueue n st a) ls))
          \<subseteq> set (toVisit (enqueue n st a)) \<union> set ls"
    by (rule Cons.IH)
  then show ?case
    using enqueue_toVisit [of n st a] by auto
qed

lemma foundLinks_host:
  "u \<in> set (foundLinks w start normalized hrefs) \<Longrightarrow> hostname u = hostname start"
  by (auto simp add: foundLinks_def isSameHost_def)

lemma script_shape_step:
  assumes "script_shape start maxPages st" and "toVisit st \<noteq> []"
    and "length (s_visited st) < maxPages"
  shows "script_shape start maxPages (crawl_step w start maxPages st)"
proof -
  obtain current rest where q: "toVisit st = current # rest"
    using assms(2) by (cases "toVisit st") auto
  let ?n = "normalizeUrl_script current"
  have hn: "hostname ?n = hostname start"
    using assms(1) q by (simp add: script_shape_def normalizeUrl_script_def)
  have seed: "s_visited st = [] \<and> toVisit st = [start] \<Longrightarrow> ?n = normalizeUrl_script start"
    using q by simp
  show ?thesis
  proof (cases "?n \<in> set (s_visited st)")
    case True
    then show ?thesis
      using assms(1) q by (auto simp add: crawl_step_def Let_def script_shape_def)
  next
    case False
    let ?st2 = "st\<lparr>toVisit := rest, s_visited := s_visited st @ [?n],
                     s_fetched := s_fetched st @ [?n]\<rparr>"
    have base: "script_shape start maxPages ?st2"
      using assms(1,3) q False hn seed by (auto simp add: script_shape_def)
    have fold: "script_shape start maxPages (foldl (enqueue maxPages) ?st2 ls)"
      if "\<forall>u\<in>set ls. hostname u = hostname start" for ls
      using base that foldl_enqueue_toVisit [of maxPages ?st2 ls]
      by (auto simp add: script_shape_def)
    have step: "crawl_step w start maxPages st =
        (case fetch_page w ?n of
           FetchOk pg \<Rightarrow> foldl (enqueue maxPages) ?st2 (foundLinks w start ?n (dom_hrefs pg))
         | _ \<Rightarrow> ?st2)"
      using q False by (simp add: crawl_step_def Let_def)
    show ?thesis
      unfolding step
      using base fold foundLinks_host [of _ w start ?n]
      by (simp split: fetch_result.splits)
  qed
qed

lemma crawlSite_facts:
  assumes "parse_url w startUrl = Some start" and "0 < maxPages"
  shows "\<exists>cs. crawlSite w startUrl maxPages = Some cs \<and>
           length (s_fetched cs) \<le> maxPages \<and> distinct (s_fetched cs) \<and>
           s_visited cs = s_fetched cs \<and>
           normalizeUrl_script start \<in> set (s_visited cs) \<and>
           (\<forall>u\<in>set (s_visited cs). hostname u = hostname start)"
proof -
  let ?i = "\<lparr>s_visited = [], toVisit = [start], s_fetched = []\<rparr>"
  let ?cs = "crawl_loop w start maxPages ?i"
  have sh: "script_shape start maxPages ?cs"
  proof (rule crawl_loop_invariant [where P = "script_shape start maxPages"])
    show "script_shape start maxPages ?i" by (simp add: script_shape_def)
  qed (rule script_shape_step)
  have ex: "\<not> (toVisit ?cs \<noteq> [] \<and> length (s_visited ?cs) < maxPages)"
    by (rule crawl_loop_exit)
  have "normalizeUrl_script start \<in> set (s_visited ?cs)"
    using sh ex assms(2) by (auto simp add: script_shape_def)
  moreover have "crawlSite w startUrl maxPages = Some ?cs"
    using assms(1) by (simp add: crawlSite_def)
  ultimately show ?thesis
    using sh by (auto simp add: script_shape_def)
qed

lemma site_crawl:
  "crawlSite site_world (lit ''https://a.example/'') 15 =
     Some \<lparr>s_visited = [seed_url, about_url, insecure_url], toVisit = [],
           s_fetched = [seed_url, about_url, insecure_url]\<rparr>"
  by (simp add: crawlSite_def crawl_loop.simps crawl_step_def Let_def foundLinks_def
      enqueue_def isCrawlableLink_def isSameHost_def normalizeUrl_script_def
      List.map_filter_def starts_with_def ends_with_def ascii_lower_def site_defs)


subsection \<open>\<^verbatim>\<open>chunk\<close>\<close>

lemma js_slice_window:
  assumes "0 \<le> i" and "0 \<le> wsize"
  shows "js_slice text i (i + wsize) = take (nat wsize) (drop (nat i) text)"
proof (cases "i \<le> int (length text)")
  case True
  have "take (nat (min (i + wsize) (int (length text)) - i)) (drop (nat i) text)
        = take (nat wsize) (drop (nat i) text)"
  proof (cases "i + wsize \<le> int (length text)")
    case True
    then show ?thesis by (simp add: min_def)
  next
    case False
    then have "length (drop (nat i) text) \<le> nat wsize"
      using assms by simp
    moreover have "length (drop (nat i) text) \<le> nat (int (length text) - i)"
      using assms by simp
    ultimately show ?thesis using False by (simp add: min_def)
  qed
  then show ?thesis
    using assms True by (simp add: js_slice_def Let_def min_def)
next
  case False
  then show ?thesis
    using assms by (simp add: js_slice_def Let_def min_def)
qed

lemma in_set_dropWhile: "x \<in> set xs \<Longrightarrow> \<not> P x \<Longrightarrow> x \<in> set (dropWhile P xs)"
  by (induction xs) auto

lemma length_collapse_ws: "length (collapse_ws s) \<le> length s"
proof (induction s rule: collapse_ws.induct)
  case 1
  then show ?case by simp
next
  case (2 c cs)
  have "length (dropWhile is_ws cs) \<le> length cs" by (rule length_dropWhile_le)
  with 2 show ?case by (auto simp add: le_trans)
qed

lemma collapse_ws_keeps: "x \<in> set s \<Longrightarrow> \<not> is_ws x \<Longrightarrow> x \<in> set (collapse_ws s)"
proof (induction s rule: collapse_ws.induct)
  case 1
  then show ?case by simp
next
  case (2 c cs)
  then show ?case by (auto simp add: in_set_dropWhile)
qed

lemma length_js_trim: "length (js_trim s) \<le> length s"
proof -
  have "length (dropWhile is_ws (rev (dropWhile is_ws s))) \<le> length (rev (dropWhile is_ws s))"
    by (rule length_dropWhile_le)
  also have "\<dots> \<le> length s" by (simp add: length_dropWhile_le)
  finally show ?thesis by (simp add: js_trim_def)
qed

lemma js_trim_keeps: "x \<in> set s \<Longrightarrow> \<not> is_ws x \<Longrightarrow> x \<in> set (js_trim s)"
  by (simp add: js_trim_def in_set_dropWhile)

lemma chunk_loop_returns:
  assumes "overlap < wsize" and "0 \<le> i" and "0 \<le> wsize"
  shows "\<exists>ws. chunk_loop t wsize overlap i out = Some (out @ ws) \<and>
           (\<forall>s\<in>set ws. length s \<le> nat wsize) \<and>
           (0 \<le> overlap \<longrightarrow>
              (\<forall>j. nat i \<le> j \<and> j < length t \<longrightarrow> (\<exists>s\<in>set ws. t ! j \<in> set s)))"
  using assms(2)
proof (induction "length t - nat i" arbitrary: i out rule: less_induct)
  case less
  show ?case
  proof (cases "i < int (length t)")
    case False
    then show ?thesis
      using less.prems by (subst chunk_loop.simps) (auto intro!: exI [of _ "[]"])
  next
    case True
    let ?sl = "js_slice t i (i + wsize)"
    let ?i' = "i + (wsize - overlap)"
    have sl: "?sl = take (nat wsize) (drop (nat i) t)"
      using less.prems assms(3) by (rule js_slice_window)
    have "length t - nat ?i' < length t - nat i"
      using True less.prems assms(1) by auto
    moreover have "0 \<le> ?i'" using less.prems assms(1) by simp
    ultimately obtain ws where
      ws: "chunk_loop t wsize overlap ?i' (out @ [?sl]) = Some ((out @ [?sl]) @ ws)"
        "\<forall>s\<in>set ws. length s \<le> nat wsize"
        "0 \<le> overlap \<longrightarrow>
           (\<forall>j. nat ?i' \<le> j \<and> j < length t \<longrightarrow> (\<exists>s\<in>set ws. t ! j \<in> set s))"
      using less.hyps [of ?i' "out @ [?sl]"] by blast
    have eq: "chunk_loop t wsize overlap i out = Some (out @ (?sl # ws))"
      using True ws(1) by (subst chunk_loop.simps) simp
    have len: "\<forall>s\<in>set (?sl # ws). length s \<le> nat wsize"
      using ws(2) by (simp add: sl)
    have cov: "\<exists>s\<in>set (?sl # ws). t ! j \<in> set s"
      if o: "0 \<le> overlap" and j: "nat i \<le> j" "j < length t" for j
    proof (cases "int j < i + wsize")
      case True
      have "t ! j = take (nat wsize) (drop (nat i) t) ! (j - nat i)"
        using True j less.prems by (simp add: nat_less_iff)
      moreover have "j - nat i < length (take (nat wsize) (drop (nat i) t))"
        using True j less.prems by auto
      ultimately have "t ! j \<in> set ?sl"
        unfolding sl by (metis nth_mem)
      then show ?thesis by simp
    next
      case False
      then have "nat ?i' \<le> j" using o by auto
      then show ?thesis using ws(3) o j(2) by auto
    qed
    show ?thesis
      using eq len cov by blast
  qed
qed


lemma chunk_returns: "\<exists>cs. chunk t 800 150 = Some cs"
  using chunk_loop_returns [of 150 800 0 t "[]"] by (auto simp add: chunk_def)

lemma chunk_ab: "chunk [0x61, 0x20, 0x20, 0x62, 0x20] 800 150 = Some [[0x61, 0x20, 0x62]]"
  by (simp add: chunk_def chunk_loop.simps js_slice_def js_trim_def is_ws_def)

text \<open>A text of white space only, which is not a normalized text, yields no chunk.\<close>

lemma chunk_blank: "chunk [0x20] 800 150 = Some []"
  by (simp add: chunk_def chunk_loop.simps js_slice_def js_trim_def is_ws_def)

lemma chunk_total:
  "\<exists>cs. chunk t 800 150 = Some cs \<and> (\<forall>c\<in>set cs. c \<noteq> [] \<and> length c \<le> 800) \<and>
        ((\<exists>x\<in>set t. \<not> is_ws x) \<longrightarrow> cs \<noteq> [])"
proof -
  obtain ws where
    ws: "chunk_loop t 800 150 0 [] = Some ([] @ ws)"
      "\<forall>s\<in>set ws. length s \<le> nat 800"
      "(0::int) \<le> 150 \<longrightarrow>
         (\<forall>j. nat 0 \<le> j \<and> j < length t \<longrightarrow> (\<exists>s\<in>set ws. t ! j \<in> set s))"
    using chunk_loop_returns [of 150 800 0 t "[]"] by auto
  let ?norm = "\<lambda>s. js_trim (collapse_ws s)"
  let ?cs = "filter (\<lambda>s. s \<noteq> []) (map ?norm ws)"
  have eq: "chunk t 800 150 = Some ?cs"
    using ws(1) by (simp add: chunk_def)
  have norm_len: "length (?norm s) \<le> length s" for s
    using length_js_trim [of "collapse_ws s"] length_collapse_ws [of s] by simp
  have len: "\<forall>c\<in>set ?cs. c \<noteq> [] \<and> length c \<le> 800"
  proof
    fix c assume "c \<in> set ?cs"
    then obtain s where "s \<in> set ws" "c = ?norm s" "c \<noteq> []" by auto
    then show "c \<noteq> [] \<and> length c \<le> 800"
      using ws(2) norm_len [of s] by fastforce
  qed
  have ne: "?cs \<noteq> []" if "\<exists>x\<in>set t. \<not> is_ws x"
  proof -
    from that obtain j where j: "j < length t" "\<not> is_ws (t ! j)"
      by (auto simp add: in_set_conv_nth)
    then obtain s where s: "s \<in> set ws" "t ! j \<in> set s"
      using ws(3) by auto
    then have "t ! j \<in> set (?norm s)"
      using j(2) by (simp add: collapse_ws_keeps js_trim_keeps)
    then have "?norm s \<noteq> []" by auto
    then have "?norm s \<in> set ?cs" using s(1) by simp
    then show ?thesis by (metis empty_iff list.set(1))
  qed
  show ?thesis using eq len ne by blast
qed

lemma js_trim_idem: "js_trim (js_trim s) = js_trim s"
proof -
  let ?b = "dropWhile is_ws (rev (dropWhile is_ws s))"
  have "dropWhile is_ws (rev ?b) = rev ?b"
  proof (cases "?b = []")
    case True
    show ?thesis unfolding True by simp
  next
    case False
    have ne: "dropWhile is_ws s \<noteq> []"
    proof
      assume e: "dropWhile is_ws s = []"
      have "?b = []" unfolding e by simp
      then show False using False by blast
    qed
    have "last ?b = last (rev (dropWhile is_ws s))"
      using False by (metis append_Nil2 last_appendR takeWhile_dropWhile_id)
    then have "last ?b = hd (dropWhile is_ws s)"
      using ne by (simp add: last_rev)
    then have "\<not> is_ws (last ?b)"
      using ne hd_dropWhile by metis
    then have "\<not> is_ws (hd (rev ?b))"
      using False by (simp add: hd_rev)
    then show ?thesis
      using False by (cases "rev ?b") simp_all
  qed
  then show ?thesis
    by (simp add: js_trim_def)
qed

lemma trimmed_has_ink:
  assumes "t \<noteq> []" and "js_trim t = t"
  shows "\<exists>x\<in>set t. \<not> is_ws x"
proof (rule ccontr)
  assume "\<not> (\<exists>x\<in>set t. \<not> is_ws x)"
  then have e: "dropWhile is_ws t = []" by (metis dropWhile_eq_Nil_conv)
  have "js_trim t = []" unfolding js_trim_def e by simp
  then show False using assms by simp
qed

text \<open>The text \<^verbatim>\<open>main\<close> passes to \<^verbatim>\<open>chunk\<close> comes from \<^verbatim>\<open>extractTextFromUrl\<close>: it is trimmed.\<close>

lemma extractTextFromUrl_trimmed:
  "extractTextFromUrl w u = Some raw \<Longrightarrow> js_trim raw = raw"
proof -
  have n: "js_trim [] = []" by (simp add: js_trim_def)
  assume "extractTextFromUrl w u = Some raw"
  then show ?thesis
    by (auto simp add: extractTextFromUrl_def Let_def js_trim_idem n
        split: fetch_result.splits option.splits if_splits)
qed

lemma chunk_trimmed_ab:
  "chunk [0x61, 0x20, 0x20, 0x62] 800 150 = Some [[0x61, 0x20, 0x62]]"
  by (simp add: chunk_def chunk_loop.simps js_slice_def js_trim_def is_ws_def)

lemma site_extract:
  "extractTextFromUrl site_world seed_url = Some (lit ''aaaaaaaaaaaaaaaaaaaaaaaa'')"
  by (simp add: extractTextFromUrl_def js_trim_def is_ws_def site_defs)

text \<open>
  Claim C4: the input of the chunker is normalized text, the text that
  \<^verbatim>\<open>extractTextFromUrl\<close> returns, which is trimmed (\<^verbatim>\<open>main\<close> passes it on when it has at least
  20 code units). For every non-empty trimmed text the chunker with window 800 and
  overlap 150 returns at least one chunk. For every input text whatsoever it returns (its
  loop ends), every chunk it returns is a non-empty string of at most 800 code units, and
  there is at least one chunk as soon as the text has a code unit that is not white
  space. The result is a function of the text alone: \<open>chunk\<close> reads and writes no state.
\<close>

theorem chunk_normalized_text:
  "(\<exists>cs. chunk t 800 150 = Some cs \<and> (\<forall>c\<in>set cs. c \<noteq> [] \<and> length c \<le> 800) \<and>
         ((\<exists>x\<in>set t. \<not> is_ws x) \<longrightarrow> cs \<noteq> []) \<and>
         (t \<noteq> [] \<and> js_trim t = t \<longrightarrow> cs \<noteq> [])) \<and>
   (extractTextFromUrl w u = Some raw \<longrightarrow> js_trim raw = raw)"
  using chunk_total [of t] trimmed_has_ink [of t] extractTextFromUrl_trimmed [of w u raw]
  by blast

theorem chunk_normalized_text_witness:
  "[0x61, 0x20, 0x20, 0x62] \<noteq> ([] :: jsstring) \<and>
   js_trim [0x61, 0x20, 0x20, 0x62] = [0x61, 0x20, 0x20, 0x62] \<and>
   (\<exists>cs. chunk [0x61, 0x20, 0x20, 0x62] 800 150 = Some cs \<and> cs \<noteq> [] \<and>
      cs = [[0x61, 0x20, 0x62]]) \<and>
   extractTextFromUrl site_world seed_url = Some (lit ''aaaaaaaaaaaaaaaaaaaaaaaa'') \<and>
   js_trim (lit ''aaaaaaaaaaaaaaaaaaaaaaaa'') = lit ''aaaaaaaaaaaaaaaaaaaaaaaa''"
proof -
  have a: "[0x61, 0x20, 0x20, 0x62] \<noteq> ([] :: jsstring)" by simp
  have b: "js_trim [0x61, 0x20, 0x20, 0x62] = [0x61, 0x20, 0x20, 0x62]"
    by (simp add: js_trim_def is_ws_def)
  obtain cs where cs: "chunk [0x61, 0x20, 0x20, 0x62] 800 150 = Some cs"
    "[0x61, 0x20, 0x20, 0x62] \<noteq> ([] :: jsstring) \<and>
     js_trim [0x61, 0x20, 0x20, 0x62] = [0x61, 0x20, 0x20, 0x62] \<longrightarrow> cs \<noteq> []"
    using chunk_normalized_text [of "[0x61, 0x20, 0x20, 0x62]"] by blast
  have ne: "cs \<noteq> []" using cs(2) a b by blast
  have c: "\<exists>cs. chunk [0x61, 0x20, 0x20, 0x62] 800 150 = Some cs \<and> cs \<noteq> [] \<and>
      cs = [[0x61, 0x20, 0x62]]"
    using cs(1) ne chunk_trimmed_ab by simp
  note d = chunk_normalized_text [of "[0x61, 0x20, 0x20, 0x62]" site_world seed_url
      "lit ''aaaaaaaaaaaaaaaaaaaaaaaa''", THEN conjunct2, THEN mp, OF site_extract]
  show ?thesis
    by (intro conjI a b c site_extract d)
qed

section \<open>The crawl loops\<close>

text \<open>
  Claim C3, as stated: the crawl loop fetches at most N distinct URLs, the visited set
  contains the seed, every visited URL other than the seed is same-origin with the seed,
  and no URL is fetched twice. The loop of the script compares host names only
  (\<^verbatim>\<open>isSameHost\<close>): from the seed \<^verbatim>\<open>https://a.example/\<close>, whose page links to
  \<^verbatim>\<open>http://a.example/x\<close>, it visits that URL, which is not the seed and has another origin
  (another scheme).
\<close>

theorem same_host_other_origin_counterexample:
  "parse_url site_world (lit ''https://a.example/'') = Some seed_url \<and>
   crawlSite site_world (lit ''https://a.example/'') 15 =
     Some \<lparr>s_visited = [seed_url, about_url, insecure_url], toVisit = [],
           s_fetched = [seed_url, about_url, insecure_url]\<rparr> \<and>
   insecure_url \<noteq> seed_url \<and>
   url_origin site_world insecure_url \<noteq> url_origin site_world seed_url"
  using site_crawl
  by (simp add: web_origin_def site_defs)

text \<open>
  Claim C3, amended: a run of the admin route that reaches the crawl loop fetches at most
  8 URLs, no URL twice, the seed among them, and every fetched URL has the origin of the
  seed, the origin being what the getter \<^verbatim>\<open>url.origin\<close> of the platform returns, whatever the
  scheme. The route compares URLs as they are serialised, fragment included, so two URLs
  that differ in the fragment only are two URLs. For every seed that parses and every page budget \<open>maxPages > 0\<close> (15 in \<^verbatim>\<open>main\<close>),
  \<^verbatim>\<open>crawlSite\<close> returns; it fetched at most \<open>maxPages\<close> URLs, no URL twice, the visited URLs
  are the fetched ones, the seed without its fragment is among them, and every visited
  URL has the host name of the seed.
\<close>

theorem crawl_bounds:
  "(reaches_crawl w rq slug tn base \<longrightarrow>
      length (fetches (POST_admin w rq s)) \<le> 8 \<and>
      distinct (fetches (POST_admin w rq s)) \<and>
      base \<in> set (fetches (POST_admin w rq s)) \<and>
      (\<forall>u\<in>set (fetches (POST_admin w rq s)). url_origin w u = url_origin w base)) \<and>
   (parse_url w startUrl = Some start \<and> 0 < maxPages \<longrightarrow>
      (\<exists>cs. crawlSite w startUrl maxPages = Some cs \<and>
         length (s_fetched cs) \<le> maxPages \<and> distinct (s_fetched cs) \<and>
         s_visited cs = s_fetched cs \<and>
         normalizeUrl_script start \<in> set (s_visited cs) \<and>
         (\<forall>u\<in>set (s_visited cs). hostname u = hostname start)))"
proof (rule conjI)
  show "reaches_crawl w rq slug tn base \<longrightarrow>
      length (fetches (POST_admin w rq s)) \<le> 8 \<and>
      distinct (fetches (POST_admin w rq s)) \<and>
      base \<in> set (fetches (POST_admin w rq s)) \<and>
      (\<forall>u\<in>set (fetches (POST_admin w rq s)). url_origin w u = url_origin w base)"
  proof
    assume r: "reaches_crawl w rq slug tn base"
    show "length (fetches (POST_admin w rq s)) \<le> 8 \<and>
      distinct (fetches (POST_admin w rq s)) \<and>
      base \<in> set (fetches (POST_admin w rq s)) \<and>
      (\<forall>u\<in>set (fetches (POST_admin w rq s)). url_origin w u = url_origin w base)"
    proof -
      note facts = admin_ingest_facts(1-4) [where w = w and tn = tn and base = base
          and slug = slug and s = s]
      have len: "length (fetches (admin_ingest w tn base slug s)) \<le> 8"
        using facts(2) by (simp add: maxPages_admin_def)
      show ?thesis
        unfolding POST_admin_run [OF r]
        by (intro conjI facts(1) len facts(3) facts(4))
    qed
  qed
next
  show "parse_url w startUrl = Some start \<and> 0 < maxPages \<longrightarrow>
      (\<exists>cs. crawlSite w startUrl maxPages = Some cs \<and>
         length (s_fetched cs) \<le> maxPages \<and> distinct (s_fetched cs) \<and>
         s_visited cs = s_fetched cs \<and>
         normalizeUrl_script start \<in> set (s_visited cs) \<and>
         (\<forall>u\<in>set (s_visited cs). hostname u = hostname start))"
  proof
    assume a: "parse_url w startUrl = Some start \<and> 0 < maxPages"
    show "\<exists>cs. crawlSite w startUrl maxPages = Some cs \<and>
         length (s_fetched cs) \<le> maxPages \<and> distinct (s_fetched cs) \<and>
         s_visited cs = s_fetched cs \<and>
         normalizeUrl_script start \<in> set (s_visited cs) \<and>
         (\<forall>u\<in>set (s_visited cs). hostname u = hostname start)"
      by (rule crawlSite_facts) (use a in simp_all)
  qed
qed

theorem crawl_bounds_witness:
  "reaches_crawl site_world admin_rq (lit ''kunden-muster'') demo_tenant seed_url \<and>
   parse_url site_world (lit ''https://a.example/'') = Some seed_url \<and>
   length (fetches (POST_admin site_world admin_rq empty_store)) \<le> 8 \<and>
   distinct (fetches (POST_admin site_world admin_rq empty_store)) \<and>
   seed_url \<in> set (fetches (POST_admin site_world admin_rq empty_store)) \<and>
   (\<exists>cs. crawlSite site_world (lit ''https://a.example/'') 15 = Some cs \<and>
      length (s_fetched cs) \<le> 15 \<and> distinct (s_fetched cs) \<and>
      s_visited cs = s_fetched cs \<and>
      normalizeUrl_script seed_url \<in> set (s_visited cs) \<and>
      (\<forall>u\<in>set (s_visited cs). hostname u = hostname seed_url))"
proof -
  note t = crawl_bounds [where w = site_world and rq = admin_rq
        and slug = "lit ''kunden-muster''" and tn = demo_tenant and base = seed_url
        and s = empty_store and startUrl = "lit ''https://a.example/''" and start = seed_url
        and maxPages = 15]
  have p: "parse_url site_world (lit ''https://a.example/'') = Some seed_url"
    by (simp add: site_world_def)
  have q: "parse_url site_world (lit ''https://a.example/'') = Some seed_url \<and> (0::nat) < 15"
    using p by simp
  note a = t [THEN conjunct1, THEN mp, OF site_reaches]
  note b = t [THEN conjunct2, THEN mp, OF q]
  show ?thesis
    by (intro conjI site_reaches p a [THEN conjunct1] a [THEN conjunct2, THEN conjunct1]
        a [THEN conjunct2, THEN conjunct2, THEN conjunct1] b)
qed

section \<open>Failures during ingestion\<close>

subsection \<open>The rows added by \<^verbatim>\<open>main\<close>\<close>

lemma store_chunk_inv:
  assumes "rows_inv s0 st" and "\<not> i_failed st"
  shows "rows_inv s0 (store_chunk w tn u c st)"
  using assms
  by (auto simp add: store_chunk_def Let_def rows_inv_def contents_paired_def
      insert_knowledge_def insert_embedding_def take_map
      split: option.splits)


lemma rows_inv_failed: "rows_inv s0 st \<Longrightarrow> rows_inv s0 (st\<lparr>i_failed := True\<rparr>)"
  by (simp add: rows_inv_def)

lemma store_chunks_inv:
  "rows_inv s0 st \<Longrightarrow> \<not> i_failed st \<Longrightarrow> rows_inv s0 (store_chunks w tn u cs st)"
proof (induction cs arbitrary: st)
  case Nil
  then show ?case by simp
next
  case (Cons c cs)
  have "rows_inv s0 (store_chunk w tn u c st)"
    using Cons.prems by (rule store_chunk_inv)
  then show ?case
    using Cons.IH [of "store_chunk w tn u c st"] by (simp add: Let_def)
qed

lemma ingest_page_inv:
  assumes "rows_inv s0 st" and "\<not> i_failed st" and "ingest_page w tn u st = Some st'"
  shows "rows_inv s0 st'"
  using assms store_chunks_inv [of s0 st w tn u] rows_inv_failed [of s0 st]
  by (auto simp add: ingest_page_def split: option.splits if_splits)

lemma ingest_pages_inv:
  "rows_inv s0 st \<Longrightarrow> \<not> i_failed st \<Longrightarrow> ingest_pages w tn us st = Some st' \<Longrightarrow>
   rows_inv s0 st'"
proof (induction us arbitrary: st)
  case Nil
  then show ?case by simp
next
  case (Cons u us)
  from Cons.prems(3) obtain st1 where st1: "ingest_page w tn u st = Some st1"
    by (cases "ingest_page w tn u st") simp_all
  have inv1: "rows_inv s0 st1"
    using Cons.prems(1,2) st1 by (rule ingest_page_inv)
  show ?case
  proof (cases "i_failed st1")
    case True
    then show ?thesis using Cons.prems(3) st1 inv1 by simp
  next
    case False
    then show ?thesis using Cons.prems(3) st1 inv1 Cons.IH [of st1] by simp
  qed
qed

lemma ingest_page_returns: "\<exists>st'. ingest_page w tn u st = Some st'"
  using chunk_returns [of "the (extractTextFromUrl w u)"]
  by (auto simp add: ingest_page_def split: option.splits)

lemma ingest_pages_returns: "\<exists>st'. ingest_pages w tn us st = Some st'"
proof (induction us arbitrary: st)
  case Nil
  then show ?case by simp
next
  case (Cons u us)
  obtain st1 where "ingest_page w tn u st = Some st1"
    using ingest_page_returns by blast
  then show ?case using Cons.IH [of st1] by simp
qed

lemma ingest_pages_not_None [simp]: "ingest_pages w tn us st \<noteq> None"
  using ingest_pages_returns [of w tn us st] by auto

lemma main_returns: "main w slug startUrl s \<noteq> None"
  by (auto simp add: main_def split: option.splits)

lemma main_paired:
  assumes "main w slug startUrl s = Some (ex, s', os)"
  shows "contents_paired s s' \<and>
         (ex = Returned \<longrightarrow>
            length (embeddings s') - length (embeddings s)
              = length (knowledge_items s') - length (knowledge_items s))"
proof -
  have init: "rows_inv s \<lparr>i_store = s, i_ops = os0, i_failed = False\<rparr>" for os0
    by (simp add: rows_inv_def contents_paired_def)
  have triv: "contents_paired s s"
    by (simp add: contents_paired_def)
  have run: "contents_paired s (i_store st) \<and>
         (\<not> i_failed st \<longrightarrow>
            length (embeddings (i_store st)) - length (embeddings s)
              = length (knowledge_items (i_store st)) - length (knowledge_items s))"
    if "ingest_pages w tn us \<lparr>i_store = s, i_ops = os0, i_failed = False\<rparr> = Some st"
    for tn us os0 st
    using ingest_pages_inv [OF init _ that] by (simp add: rows_inv_def)
  show ?thesis
    using assms triv run
    by (auto simp add: main_def split: option.splits if_splits)
qed

lemma chunk_24a:
  "chunk (map of_char ''aaaaaaaaaaaaaaaaaaaaaaaa'') 800 150 = Some [map of_char ''aaaaaaaaaaaaaaaaaaaaaaaa'']"
  by (simp add: chunk_def chunk_loop.simps js_slice_def js_trim_def is_ws_def)

lemma chunk_24b:
  "chunk (map of_char ''bbbbbbbbbbbbbbbbbbbbbbbb'') 800 150 = Some [map of_char ''bbbbbbbbbbbbbbbbbbbbbbbb'']"
  by (simp add: chunk_def chunk_loop.simps js_slice_def js_trim_def is_ws_def)

lemma main_site:
  "main site_world (Some (lit ''kunden-muster'')) (Some (lit ''https://a.example/'')) empty_store =
     Some (Returned,
           script_store,
           script_ops)"
  using site_crawl chunk_24a chunk_24b
  by (simp add: main_def ingest_page_def extractTextFromUrl_def store_chunk_def Let_def
      insert_knowledge_def insert_embedding_def js_trim_def is_ws_def chunk_row_def
      chunk_emb_def script_store_def script_ops_def site_defs)

lemma strict_crawl:
  "crawlSite strict_world (lit ''https://a.example/'') 15 =
     Some \<lparr>s_visited = [seed_url, about_url, insecure_url], toVisit = [],
           s_fetched = [seed_url, about_url, insecure_url]\<rparr>"
  by (simp add: crawlSite_def crawl_loop.simps crawl_step_def Let_def foundLinks_def
      enqueue_def isCrawlableLink_def isSameHost_def normalizeUrl_script_def
      List.map_filter_def starts_with_def ends_with_def ascii_lower_def strict_world_def
      site_defs)

lemma main_strict:
  "main strict_world (Some (lit ''kunden-muster'')) (Some (lit ''https://a.example/'')) empty_store =
     Some (Exited1,
           \<lparr>knowledge_items = [chunk_row seed_url (lit ''aaaaaaaaaaaaaaaaaaaaaaaa'')],
            embeddings = []\<rparr>,
           [OpTenantLookup (lit ''kunden-muster''),
            OpInsertKnowledge (chunk_row seed_url (lit ''aaaaaaaaaaaaaaaaaaaaaaaa''))])"
  using strict_crawl chunk_24a
  by (simp add: main_def ingest_page_def extractTextFromUrl_def store_chunk_def Let_def
      insert_knowledge_def insert_embedding_def js_trim_def is_ws_def chunk_row_def
      chunk_emb_def strict_world_def site_defs)


subsection \<open>The admin route when no body read fails\<close>

lemma admin_ingest_prefix:
  "set (fetches (admin_ingest w tn base slug s))
     \<subseteq> set (take maxPages_admin (base # seed_links w tn base))"
proof -
  let ?os = "[OpTenantLookup slug, OpDeleteEmbeddings (tid tn), OpDeleteKnowledge (tid tn)]"
  let ?st = "admin_loop w tn base (initial_crawl base (cleared w tn s) ?os)"
  note fin = admin_loop_final [of w tn base "cleared w tn s" ?os]
  have f: "fetches (admin_ingest w tn base slug s) = fetched ?st"
    unfolding admin_ingest_def cleared_def Let_def by simp
  have fv: "fetched ?st = visited ?st" and le: "length (visited ?st) \<le> maxPages_admin"
    and eq: "visited ?st @ queue ?st = base # seed_links w tn base"
    using fin(1) fin(5) unfolding crawl_shape_def by blast+
  have "visited ?st = take (length (visited ?st)) (base # seed_links w tn base)"
    using eq by (metis append_eq_conv_conj)
  then have "set (visited ?st) \<subseteq> set (take maxPages_admin (base # seed_links w tn base))"
    using le by (metis set_take_subset_set_take)
  then show ?thesis by (simp add: f fv)
qed

lemma admin_ingest_response:
  "(\<exists>e. response (admin_ingest w tn base slug s) = ServerError e) \<or>
   (\<exists>n items. response (admin_ingest w tn base slug s) = Ingested tn n items)"
  unfolding admin_ingest_def Let_def by (simp split: option.splits)

lemma admin_ingest_ok:
  assumes "\<forall>u\<in>set (take maxPages_admin (base # seed_links w tn base)). \<not> body_fails w u"
  shows "fetches (admin_ingest w tn base slug s)
           = take maxPages_admin (base # seed_links w tn base)"
    and "response (admin_ingest w tn base slug s) =
           Ingested tn
             (length (filter (counted w tn base)
                (take maxPages_admin (base # seed_links w tn base))))
             (map (\<lambda>u. (u, page_title base u))
                (filter (counted w tn base)
                   (take maxPages_admin (base # seed_links w tn base))))"
proof -
  let ?out = "admin_ingest w tn base slug s"
  have "\<not> (\<exists>u\<in>set (fetches ?out). body_fails w u)"
    using assms admin_ingest_prefix [of w tn base slug s] by blast
  then have "\<not> (\<exists>e. response ?out = ServerError e)"
    using admin_ingest_facts(5) [where w = w and tn = tn and base = base and slug = slug
        and s = s] by simp
  then obtain n items where r: "response ?out = Ingested tn n items"
    using admin_ingest_response [of w tn base slug s] by blast
  note c = admin_ingest_facts(6) [where w = w and tn = tn and base = base and slug = slug
      and s = s, OF r]
  show "fetches ?out = take maxPages_admin (base # seed_links w tn base)"
    using c by simp
  then show "response ?out =
           Ingested tn
             (length (filter (counted w tn base)
                (take maxPages_admin (base # seed_links w tn base))))
             (map (\<lambda>u. (u, page_title base u))
                (filter (counted w tn base)
                   (take maxPages_admin (base # seed_links w tn base))))"
    using c r by simp
qed

text \<open>
  Claim C7, as stated: during one ingestion run a failure fetching a page, persisting a
  knowledge item, or creating or persisting an embedding skips only that page or item
  and never aborts the rest of the run. \<^verbatim>\<open>main\<close> of the ingest script rethrows such a
  failure: where the embedding call fails on the chunk of the seed page only, the run
  ends with exit code 1 after the first knowledge item, and the second page, which the
  run without the failure stores, is never touched.
\<close>

theorem script_aborts_counterexample:
  "embedding site_world (lit ''aaaaaaaaaaaaaaaaaaaaaaaa'') = Some [] \<and>
   embedding strict_world (lit ''aaaaaaaaaaaaaaaaaaaaaaaa'') = None \<and>
   embedding strict_world (lit ''bbbbbbbbbbbbbbbbbbbbbbbb'') = Some [] \<and>
   main site_world (Some (lit ''kunden-muster'')) (Some (lit ''https://a.example/'')) empty_store =
     Some (Returned,
           script_store,
           script_ops) \<and>
   main strict_world (Some (lit ''kunden-muster'')) (Some (lit ''https://a.example/'')) empty_store =
     Some (Exited1,
           \<lparr>knowledge_items = [chunk_row seed_url (lit ''aaaaaaaaaaaaaaaaaaaaaaaa'')],
            embeddings = []\<rparr>,
           [OpTenantLookup (lit ''kunden-muster''),
            OpInsertKnowledge (chunk_row seed_url (lit ''aaaaaaaaaaaaaaaaaaaaaaaa''))])"
proof -
  have "embedding site_world (lit ''aaaaaaaaaaaaaaaaaaaaaaaa'') = Some []"
    "embedding strict_world (lit ''aaaaaaaaaaaaaaaaaaaaaaaa'') = None"
    "embedding strict_world (lit ''bbbbbbbbbbbbbbbbbbbbbbbb'') = Some []"
    by (simp_all add: strict_world_def site_world_def lit_def)
  then show ?thesis
    using main_site main_strict by (intro conjI)
qed

lemma seed_links_counted:
  "counted w tn base base \<Longrightarrow> seed_links w tn base = page_links w base"
  by (simp add: seed_links_def page_links_def split: fetch_result.splits)

lemma seed_links_failed: "\<not> counted w tn base base \<Longrightarrow> seed_links w tn base = []"
  by (simp add: seed_links_def split: fetch_result.splits)

lemmas flaky_defs = flaky_world_def link_page_def team_url_def contact_url_def

lemma flaky_reaches:
  "reaches_crawl flaky_world admin_rq (lit ''kunden-muster'') demo_tenant seed_url"
  by (simp add: reaches_crawl_def unauthorized_def normalizeUrl_def flaky_world_def
      site_world_def admin_rq_def lit_def)

lemma flaky_links: "page_links flaky_world seed_url = [about_url, team_url, contact_url]"
  by (simp add: page_links_def extractLinks_def List.map_filter_def dedup_def
      starts_with_def web_origin_def flaky_defs site_defs)

lemma flaky_counted:
  "filter (counted flaky_world demo_tenant seed_url) [seed_url, about_url, team_url, contact_url]
     = [seed_url, contact_url]"
  by (simp add: counted_def knowledge_row_def flaky_defs site_defs)

lemma refusing_reaches:
  "reaches_crawl refusing_world admin_rq (lit ''kunden-muster'') demo_tenant seed_url"
  by (simp add: reaches_crawl_def unauthorized_def normalizeUrl_def refusing_world_def
      site_world_def admin_rq_def lit_def)

text \<open>
  Claim C7, amended: in the admin route, take a run that reaches the crawl loop. If the
  seed page counts (it arrives with status OK and at least 200 code units of text, and
  the store accepts its knowledge item) and no read of a response body fails at the seed
  or at a link of the seed page within the budget, then whatever fails elsewhere (the
  fetch of another page, rejected or not OK; the insert of another knowledge item; any
  embedding call or insert of an embedding, those of the seed included) the run fetches
  the seed and the links of the seed page, up to 8 URLs; its items and its knowledge items
  are those of the fetched pages that count, each page on its own fetch result and insert;
  and its embedding rows are those of the counted pages whose own embedding call and
  insert succeed. If the seed page does not count and the read of its body does not fail,
  no link is followed: the run fetches the seed only and stores nothing. In both cases
  the answer has status 200.
\<close>

theorem admin_never_aborts:
  assumes "reaches_crawl w rq slug tn base"
  shows "(counted w tn base base \<and>
          filter (body_fails w) (take 8 (base # page_links w base)) = [] \<longrightarrow>
           fetches (POST_admin w rq s) = take 8 (base # page_links w base) \<and>
           response (POST_admin w rq s) =
             Ingested tn
               (length (filter (counted w tn base) (take 8 (base # page_links w base))))
               (map (\<lambda>u. (u, page_title base u))
                  (filter (counted w tn base) (take 8 (base # page_links w base)))) \<and>
           admin_status (response (POST_admin w rq s)) = 200 \<and>
           knowledge_items (store_after (POST_admin w rq s)) =
             knowledge_items (cleared w tn s) @
             map (\<lambda>u. knowledge_row tn base u (page_text w u))
               (filter (counted w tn base) (take 8 (base # page_links w base))) \<and>
           embeddings (store_after (POST_admin w rq s)) =
             embeddings (cleared w tn s) @
             map (embedding_row w tn)
               (filter (\<lambda>u. counted w tn base u \<and> embedded w tn u)
                  (take 8 (base # page_links w base)))) \<and>
         (\<not> counted w tn base base \<and> \<not> body_fails w base \<longrightarrow>
           fetches (POST_admin w rq s) = [base] \<and>
           response (POST_admin w rq s) = Ingested tn 0 [] \<and>
           admin_status (response (POST_admin w rq s)) = 200 \<and>
           knowledge_items (store_after (POST_admin w rq s)) = knowledge_items (cleared w tn s) \<and>
           embeddings (store_after (POST_admin w rq s)) = embeddings (cleared w tn s))"
proof -
  let ?out = "admin_ingest w tn base slug s"
  have run: "POST_admin w rq s = ?out"
    by (rule POST_admin_run [OF assms(1)])
  note ki = admin_ingest_facts(7) [where w = w and tn = tn and base = base and slug = slug
      and s = s]
  note em = admin_ingest_facts(8) [where w = w and tn = tn and base = base and slug = slug
      and s = s]
  have a: "fetches ?out = take 8 (base # page_links w base) \<and>
           response ?out =
             Ingested tn
               (length (filter (counted w tn base) (take 8 (base # page_links w base))))
               (map (\<lambda>u. (u, page_title base u))
                  (filter (counted w tn base) (take 8 (base # page_links w base)))) \<and>
           admin_status (response ?out) = 200 \<and>
           knowledge_items (store_after ?out) =
             knowledge_items (cleared w tn s) @
             map (\<lambda>u. knowledge_row tn base u (page_text w u))
               (filter (counted w tn base) (take 8 (base # page_links w base))) \<and>
           embeddings (store_after ?out) =
             embeddings (cleared w tn s) @
             map (embedding_row w tn)
               (filter (\<lambda>u. counted w tn base u \<and> embedded w tn u)
                  (take 8 (base # page_links w base)))"
    if c: "counted w tn base base"
      and n: "filter (body_fails w) (take 8 (base # page_links w base)) = []"
  proof -
    have "\<forall>u\<in>set (take 8 (base # page_links w base)). \<not> body_fails w u"
      using n unfolding filter_empty_conv by blast
    then have nb: "\<forall>u\<in>set (take maxPages_admin (base # seed_links w tn base)).
        \<not> body_fails w u"
      by (simp add: seed_links_counted [OF c] maxPages_admin_def)
    note ok = admin_ingest_ok [OF nb, of slug s]
    have f: "fetches ?out = take 8 (base # page_links w base)"
      using ok(1) by (simp add: seed_links_counted [OF c] maxPages_admin_def)
    show ?thesis
      using ok(2) ki em unfolding f
      by (simp add: seed_links_counted [OF c] maxPages_admin_def admin_status_def)
  qed
  have b: "fetches ?out = [base] \<and> response ?out = Ingested tn 0 [] \<and>
           admin_status (response ?out) = 200 \<and>
           knowledge_items (store_after ?out) = knowledge_items (cleared w tn s) \<and>
           embeddings (store_after ?out) = embeddings (cleared w tn s)"
    if c: "\<not> counted w tn base base" and n: "\<not> body_fails w base"
  proof -
    have nb: "\<forall>u\<in>set (take maxPages_admin (base # seed_links w tn base)).
        \<not> body_fails w u"
      using n by (simp add: seed_links_failed [OF c] maxPages_admin_def)
    note ok = admin_ingest_ok [OF nb, of slug s]
    have f: "fetches ?out = [base]"
      using ok(1) by (simp add: seed_links_failed [OF c] maxPages_admin_def)
    show ?thesis
      using ok(2) ki em c unfolding f
      by (simp add: seed_links_failed [OF c] maxPages_admin_def admin_status_def)
  qed
  show ?thesis
    unfolding run using a b by blast
qed

theorem admin_never_aborts_witness:
  "reaches_crawl flaky_world admin_rq (lit ''kunden-muster'') demo_tenant seed_url \<and>
   counted flaky_world demo_tenant seed_url seed_url \<and>
   filter (body_fails flaky_world) (take 8 (seed_url # page_links flaky_world seed_url)) = [] \<and>
   fetch_page flaky_world about_url = FetchRejects \<and>
   \<not> store_accepts flaky_world
       (OpInsertKnowledge
          (knowledge_row demo_tenant seed_url team_url (page_text flaky_world team_url))) \<and>
   embedding flaky_world (take 8000 (page_text flaky_world contact_url)) = None \<and>
   \<not> store_accepts flaky_world
       (OpInsertEmbedding (embedding_row flaky_world demo_tenant seed_url)) \<and>
   fetches (POST_admin flaky_world admin_rq empty_store) =
     [seed_url, about_url, team_url, contact_url] \<and>
   response (POST_admin flaky_world admin_rq empty_store) =
     Ingested demo_tenant 2 [(seed_url, lit ''Website''), (contact_url, lit ''/contact'')] \<and>
   admin_status (response (POST_admin flaky_world admin_rq empty_store)) = 200 \<and>
   map ki_url (knowledge_items (store_after (POST_admin flaky_world admin_rq empty_store))) =
     [Some seed_url, Some contact_url] \<and>
   embeddings (store_after (POST_admin flaky_world admin_rq empty_store)) = [] \<and>
   reaches_crawl refusing_world admin_rq (lit ''kunden-muster'') demo_tenant seed_url \<and>
   \<not> counted refusing_world demo_tenant seed_url seed_url \<and>
   \<not> body_fails refusing_world seed_url \<and>
   fetches (POST_admin refusing_world admin_rq empty_store) = [seed_url] \<and>
   response (POST_admin refusing_world admin_rq empty_store) = Ingested demo_tenant 0 [] \<and>
   admin_status (response (POST_admin refusing_world admin_rq empty_store)) = 200"
proof -
  have nb: "filter (body_fails flaky_world)
      (take 8 (seed_url # page_links flaky_world seed_url)) = []"
    by (simp add: flaky_links body_fails_def flaky_defs site_defs)
  have c: "counted flaky_world demo_tenant seed_url seed_url"
    by (simp add: counted_def knowledge_row_def flaky_defs site_defs)
  have f1: "fetch_page flaky_world about_url = FetchRejects"
    by (simp add: flaky_defs site_defs)
  have f2: "\<not> store_accepts flaky_world
       (OpInsertKnowledge
          (knowledge_row demo_tenant seed_url team_url (page_text flaky_world team_url)))"
    by (simp add: knowledge_row_def flaky_defs)
  have f3: "embedding flaky_world (take 8000 (page_text flaky_world contact_url)) = None"
    by (simp add: page_text_def flaky_defs site_defs)
  have f4: "\<not> store_accepts flaky_world
       (OpInsertEmbedding (embedding_row flaky_world demo_tenant seed_url))"
    by (simp add: flaky_defs)
  have e: "filter (\<lambda>u. counted flaky_world demo_tenant seed_url u \<and>
                      embedded flaky_world demo_tenant u)
             [seed_url, about_url, team_url, contact_url] = []"
    by (simp add: embedded_def flaky_world_def)
  have pl: "take 8 (seed_url # page_links flaky_world seed_url) =
      [seed_url, about_url, team_url, contact_url]"
    by (simp add: flaky_links)
  have ti: "page_title seed_url seed_url = lit ''Website''"
    "page_title seed_url contact_url = lit ''/contact''"
    by (simp_all add: page_title_def contact_url_def seed_url_def lit_def)
  have cl: "cleared flaky_world demo_tenant empty_store = empty_store"
    by (simp add: cleared_def delete_embeddings_def delete_knowledge_def empty_store_def)
  note t = admin_never_aborts [OF flaky_reaches, of empty_store]
  note t1 = t [THEN conjunct1, THEN mp, OF conjI [OF c nb], unfolded pl flaky_counted e cl]
  have a1: "fetches (POST_admin flaky_world admin_rq empty_store) =
     [seed_url, about_url, team_url, contact_url]"
    by (rule t1 [THEN conjunct1])
  have a2: "response (POST_admin flaky_world admin_rq empty_store) =
     Ingested demo_tenant 2 [(seed_url, lit ''Website''), (contact_url, lit ''/contact'')]"
    using t1 [THEN conjunct2, THEN conjunct1] by (simp add: ti)
  have a3: "map ki_url
       (knowledge_items (store_after (POST_admin flaky_world admin_rq empty_store))) =
     [Some seed_url, Some contact_url]"
    using t1 [THEN conjunct2, THEN conjunct2, THEN conjunct2, THEN conjunct1]
    by (simp add: empty_store_def knowledge_row_def)
  have a4: "embeddings (store_after (POST_admin flaky_world admin_rq empty_store)) = []"
    using t1 [THEN conjunct2, THEN conjunct2, THEN conjunct2, THEN conjunct2]
    by (simp add: empty_store_def)
  have c': "\<not> counted refusing_world demo_tenant seed_url seed_url"
    by (simp add: counted_def refusing_world_def site_defs)
  have n': "\<not> body_fails refusing_world seed_url"
    by (simp add: body_fails_def refusing_world_def site_defs)
  note r = admin_never_aborts [OF refusing_reaches, of empty_store]
  note r1 = r [THEN conjunct2, THEN mp, OF conjI [OF c' n']]
  show ?thesis
    by (intro conjI flaky_reaches c nb f1 f2 f3 f4 a1 a2
        t1 [THEN conjunct2, THEN conjunct2, THEN conjunct1] a3 a4
        refusing_reaches c' n' r1 [THEN conjunct1] r1 [THEN conjunct2, THEN conjunct1]
        r1 [THEN conjunct2, THEN conjunct2, THEN conjunct1])
qed

subsection \<open>The content of the embedding rows\<close>

text \<open>
  Claim C9, as stated: the embedding row inserted alongside a knowledge item carries the
  same content text as that knowledge item. In the admin route the knowledge item holds
  the first 12000 code units of the page text and the embedding row the first 8000: for
  the seed page of the concrete site, of 8001 code units, the two contents differ.
\<close>

theorem embedding_content_counterexample:
  "map ki_content (knowledge_items (store_after (POST_admin site_world admin_rq empty_store)))
     = [replicate 8001 0x61, replicate 300 0x62] \<and>
   map emb_content (embeddings (store_after (POST_admin site_world admin_rq empty_store)))
     = [replicate 8000 0x61, replicate 300 0x62] \<and>
   replicate 8000 (0x61 :: 16 word) \<noteq> replicate 8001 0x61"
proof -
  have "length (replicate 8000 (0x61 :: 16 word)) \<noteq> length (replicate 8001 (0x61 :: 16 word))"
    by simp
  then have "replicate 8000 (0x61 :: 16 word) \<noteq> replicate 8001 0x61"
    by metis
  then show ?thesis
    by (simp add: site_run knowledge_row_def)
qed

text \<open>
  Claim C9, amended: in the admin route, the knowledge items and the embedding rows added
  by a run are those of the fetched pages that count (and, for the embedding rows, whose
  embedding was created and accepted), in the order of the fetches; the content of the
  embedding row of a page is the first 8000 code units of the content of its knowledge
  item, and equals it when the page text has at most 8000 code units. In the ingest
  script, the contents of the embedding rows a run added are, position by position, the
  contents of the knowledge items it added, and a run that returns added as many
  embedding rows as knowledge items.
\<close>

theorem embedding_content:
  "(reaches_crawl w rq slug tn base \<longrightarrow>
      knowledge_items (store_after (POST_admin w rq s)) =
        knowledge_items (cleared w tn s) @
        map (\<lambda>u. knowledge_row tn base u (page_text w u))
          (filter (counted w tn base) (fetches (POST_admin w rq s))) \<and>
      embeddings (store_after (POST_admin w rq s)) =
        embeddings (cleared w tn s) @
        map (embedding_row w tn)
          (filter (\<lambda>u. counted w tn base u \<and> embedded w tn u) (fetches (POST_admin w rq s)))) \<and>
   emb_content (embedding_row w tn u)
     = take 8000 (ki_content (knowledge_row tn base u (page_text w u))) \<and>
   (length (page_text w u) \<le> 8000 \<longrightarrow>
      emb_content (embedding_row w tn u) = ki_content (knowledge_row tn base u (page_text w u))) \<and>
   (main w arg_slug arg_url s = Some (ex, s', os) \<longrightarrow>
      contents_paired s s' \<and>
      (ex = Returned \<longrightarrow>
         length (embeddings s') - length (embeddings s)
           = length (knowledge_items s') - length (knowledge_items s)))"
proof -
  have a: "knowledge_items (store_after (POST_admin w rq s)) =
        knowledge_items (cleared w tn s) @
        map (\<lambda>u. knowledge_row tn base u (page_text w u))
          (filter (counted w tn base) (fetches (POST_admin w rq s))) \<and>
      embeddings (store_after (POST_admin w rq s)) =
        embeddings (cleared w tn s) @
        map (embedding_row w tn)
          (filter (\<lambda>u. counted w tn base u \<and> embedded w tn u) (fetches (POST_admin w rq s)))"
    if r: "reaches_crawl w rq slug tn base"
    unfolding POST_admin_run [OF r]
    by (intro conjI admin_ingest_facts(7,8))
  have b: "emb_content (embedding_row w tn u)
     = take 8000 (ki_content (knowledge_row tn base u (page_text w u)))"
    by (simp add: embedding_row_def knowledge_row_def)
  have c: "length (page_text w u) \<le> 8000 \<longrightarrow>
      emb_content (embedding_row w tn u) = ki_content (knowledge_row tn base u (page_text w u))"
    by (simp add: embedding_row_def knowledge_row_def)
  show ?thesis
    using a b c main_paired [of w arg_slug arg_url s ex s' os] by blast
qed

theorem embedding_content_witness:
  "reaches_crawl site_world admin_rq (lit ''kunden-muster'') demo_tenant seed_url \<and>
   length (page_text site_world about_url) \<le> 8000 \<and>
   emb_content (embedding_row site_world demo_tenant about_url)
     = ki_content (knowledge_row demo_tenant seed_url about_url (page_text site_world about_url)) \<and>
   embeddings (store_after (POST_admin site_world admin_rq empty_store)) =
        embeddings (cleared site_world demo_tenant empty_store) @
        map (embedding_row site_world demo_tenant)
          (filter (\<lambda>u. counted site_world demo_tenant seed_url u \<and>
                       embedded site_world demo_tenant u)
             (fetches (POST_admin site_world admin_rq empty_store))) \<and>
   contents_paired empty_store
     script_store"
proof -
  have l: "length (page_text site_world about_url) \<le> 8000"
    by (simp add: page_text_def site_defs)
  note t1 = embedding_content [where w = site_world and rq = admin_rq
      and slug = "lit ''kunden-muster''" and tn = demo_tenant and base = seed_url
      and s = empty_store and u = about_url
      and arg_slug = "Some (lit ''kunden-muster'')"
      and arg_url = "Some (lit ''https://a.example/'')" and ex = Returned
      and s' = script_store and os = script_ops]
  note a = t1 [THEN conjunct1, THEN mp, OF site_reaches, THEN conjunct2]
  note c = t1 [THEN conjunct2, THEN conjunct2, THEN conjunct1, THEN mp, OF l]
  note d = t1 [THEN conjunct2, THEN conjunct2, THEN conjunct2, THEN mp, OF main_site,
      THEN conjunct1]
  show ?thesis
    by (intro conjI site_reaches l c a d)
qed

end
